theory Spec2Isabelle
  imports Main "HOL-Library.Sublist"
begin

section \<open>Values, exceptions and scoped-resource guards\<close>

text \<open>
  The scoped contexts of \<^verbatim>\<open>anydi/_context.py\<close> are embedded as state-passing
  functions. An interface (\<^verbatim>\<open>AnyInterface\<close>) is a hashable key; it is a string here.
\<close>

type_synonym iface = string

text \<open>
  Exceptions carry their class and message. \<^verbatim>\<open>except LookupError\<close> also catches the
  built-in subclasses \<^verbatim>\<open>KeyError\<close> and \<^verbatim>\<open>IndexError\<close>.
\<close>

datatype exc_class =
  TypeError | LookupError | KeyError | IndexError | ImportError | RuntimeError | OtherError

datatype exc = Exc (exc_class: exc_class) (message: string)

definition isinstance_LookupError :: "exc \<Rightarrow> bool" where
  "isinstance_LookupError e =
     (exc_class e = LookupError \<or> exc_class e = KeyError \<or> exc_class e = IndexError)"

text \<open>
  An exit callback (\<^verbatim>\<open>__exit__\<close> or \<^verbatim>\<open>__aexit__\<close>) receives the exception that is
  pending, if any, and either returns (a true result suppresses the pending exception)
  or raises.
\<close>

datatype exit_outcome = ExitReturned bool | ExitRaised exc

type_synonym exit_fn = "exc option \<Rightarrow> exit_outcome"

text \<open>
  A context manager guards one resource, named by a number so that releases can be
  observed: entering it raises or gives a value, leaving it runs its exit callback.
\<close>

datatype 'v cm = CM (cm_resource: nat) (cm_enter: "exc + 'v") (cm_exit: exit_fn)

text \<open>
  Instances are \<^verbatim>\<open>None\<close>, objects with an identity (which may implement the
  synchronous and the asynchronous context-manager protocol), or a
  \<^verbatim>\<open>DependencyWrapper(interface, instance)\<close>.
\<close>

datatype val =
  PyNone
  | Obj nat "unit cm option" "unit cm option"
  | DependencyWrapper iface val

text \<open>\<^verbatim>\<open>isinstance(instance, contextlib.AbstractContextManager)\<close>, with the protocol found.\<close>

fun AbstractContextManager :: "val \<Rightarrow> unit cm option" where
  "AbstractContextManager (Obj i c a) = c"
| "AbstractContextManager v = None"

text \<open>\<^verbatim>\<open>isinstance(instance, contextlib.AbstractAsyncContextManager)\<close>.\<close>

fun AbstractAsyncContextManager :: "val \<Rightarrow> unit cm option" where
  "AbstractAsyncContextManager (Obj i c a) = a"
| "AbstractAsyncContextManager v = None"

section \<open>Providers and parameters\<close>

datatype param_kind =
  POSITIONAL_ONLY | POSITIONAL_OR_KEYWORD | VAR_POSITIONAL | KEYWORD_ONLY | VAR_KEYWORD

text \<open>
  An \<^verbatim>\<open>inspect.Parameter\<close>; \<^verbatim>\<open>default_value = None\<close> stands for
  \<^verbatim>\<open>inspect.Parameter.empty\<close>.
\<close>

record parameter =
  name :: string
  annotation :: iface
  default_value :: "val option"
  kind :: param_kind

type_synonym args = "val list"
type_synonym kwargs = "string \<rightharpoonup> val"

text \<open>
  Modelled from the spec: the Provider descriptor of \<^verbatim>\<open>anydi/_provider.py\<close>, which is
  not among the source files. A factory is a function of its arguments and of the serial
  number of the invocation (so that it can build a new object at every call). Its call
  kind is read off the callable, as \<^verbatim>\<open>inspect\<close> does: a plain function returns or raises,
  a generator function yields one value under a guard, and likewise asynchronously.
\<close>

datatype callable =
  Plain "args \<Rightarrow> kwargs \<Rightarrow> nat \<Rightarrow> exc + val"
  | Generator "args \<Rightarrow> kwargs \<Rightarrow> nat \<Rightarrow> val cm"
  | Coroutine "args \<Rightarrow> kwargs \<Rightarrow> nat \<Rightarrow> exc + val"
  | AsyncGenerator "args \<Rightarrow> kwargs \<Rightarrow> nat \<Rightarrow> val cm"

datatype CallableKind = PLAIN | GENERATOR | COROUTINE | ASYNC_GENERATOR

record provider =
  interface :: iface
  call :: callable
  parameters :: "parameter list"
  str :: string

definition provider_kind :: "provider \<Rightarrow> CallableKind" where
  "provider_kind p =
     (case call p of
        Plain f \<Rightarrow> PLAIN
      | Generator g \<Rightarrow> GENERATOR
      | Coroutine f \<Rightarrow> COROUTINE
      | AsyncGenerator g \<Rightarrow> ASYNC_GENERATOR)"

section \<open>The state of a scoped context\<close>

text \<open>
  \<^verbatim>\<open>instances\<close>, \<^verbatim>\<open>stack\<close> and \<^verbatim>\<open>async_stack\<close> are the attributes
  \<^verbatim>\<open>_instances\<close>, \<^verbatim>\<open>_stack\<close> and \<^verbatim>\<open>_async_stack\<close> of the context. The exit
  stacks hold the exit callbacks in order of registration (the last one is the top).
  The other fields observe the environment: \<^verbatim>\<open>calls\<close> lists the interfaces whose
  factory has been invoked, in order; \<^verbatim>\<open>released\<close> lists the resources whose exit
  callback has run, in order; \<^verbatim>\<open>anyio_installed\<close> is the module flag of that name.
\<close>

record state =
  instances :: "iface \<rightharpoonup> val"
  stack :: "(nat \<times> exit_fn) list"
  async_stack :: "(nat \<times> exit_fn) list"
  calls :: "iface list"
  released :: "nat list"
  anyio_installed :: bool

text \<open>
  The container, as far as a scoped context reads it. \<^verbatim>\<open>Container\<close> is not among the
  source files: its override table and testing flag are read as data, and its methods
  \<^verbatim>\<open>_resolve_parameter\<close> and \<^verbatim>\<open>_aresolve_parameter\<close> are parameters, arbitrary
  functions of the state that return an instance or raise.
\<close>

record container =
  override_instances :: "iface \<rightharpoonup> val"
  testing :: bool
  resolve_parameter :: "provider \<Rightarrow> parameter \<Rightarrow> state \<Rightarrow> (exc + val) \<times> state"
  aresolve_parameter :: "provider \<Rightarrow> parameter \<Rightarrow> state \<Rightarrow> (exc + val) \<times> state"

section \<open>set, has, delete\<close>

definition set_instance :: "iface \<Rightarrow> val \<Rightarrow> state \<Rightarrow> state" where
  "set_instance interface' instance s = s\<lparr>instances := (instances s)(interface' \<mapsto> instance)\<rparr>"

definition has :: "iface \<Rightarrow> state \<Rightarrow> bool" where
  "has interface' s = (case instances s interface' of None \<Rightarrow> False | Some v \<Rightarrow> True)"

definition delete :: "iface \<Rightarrow> state \<Rightarrow> state" where
  "delete interface' s = s\<lparr>instances := (instances s)(interface' := None)\<rparr>"

text \<open>\<^verbatim>\<open>dict.get(key)\<close>: the value, or \<^verbatim>\<open>None\<close> for a missing key.\<close>

definition dict_get :: "(iface \<rightharpoonup> val) \<Rightarrow> iface \<Rightarrow> val" where
  "dict_get d k = (case d k of None \<Rightarrow> PyNone | Some v \<Rightarrow> v)"

section \<open>Resolving the arguments of a provider\<close>

text \<open>
  The body of the loop of \<^verbatim>\<open>_get_provided_args\<close> and \<^verbatim>\<open>_aget_provided_args\<close>,
  up to the choice of \<^verbatim>\<open>instance\<close>: the override table first, then the cache of this
  context, then the container (\<^verbatim>\<open>resolve\<close> is \<^verbatim>\<open>_resolve_parameter\<close> in the
  synchronous function and the awaited \<^verbatim>\<open>_aresolve_parameter\<close> in the asynchronous
  one, which is their only difference).
\<close>

definition provided_instance ::
  "container \<Rightarrow> (provider \<Rightarrow> parameter \<Rightarrow> state \<Rightarrow> (exc + val) \<times> state) \<Rightarrow>
   provider \<Rightarrow> parameter \<Rightarrow> state \<Rightarrow> (exc + val) \<times> state" where
  "provided_instance C resolve provider parameter s =
     (case override_instances C (annotation parameter) of
        Some instance \<Rightarrow> (Inr instance, s)
      | None \<Rightarrow>
        (case instances s (annotation parameter) of
           Some instance \<Rightarrow> (Inr instance, s)
         | None \<Rightarrow>
           (case resolve provider parameter s of
              (Inl e, s') \<Rightarrow>
                if isinstance_LookupError e then
                  (case default_value parameter of
                     None \<Rightarrow> (Inl e, s')
                   | Some d \<Rightarrow> (Inr d, s'))
                else (Inl e, s')
            | (Inr instance, s') \<Rightarrow>
                if testing C
                then (Inr (DependencyWrapper (annotation parameter) instance), s')
                else (Inr instance, s'))))"

text \<open>The loop over \<^verbatim>\<open>provider.parameters\<close>, with \<^verbatim>\<open>args\<close> and \<^verbatim>\<open>kwargs\<close>.\<close>

fun provided_args ::
  "container \<Rightarrow> (provider \<Rightarrow> parameter \<Rightarrow> state \<Rightarrow> (exc + val) \<times> state) \<Rightarrow>
   provider \<Rightarrow> parameter list \<Rightarrow> args \<Rightarrow> kwargs \<Rightarrow> state \<Rightarrow>
   (exc + args \<times> kwargs) \<times> state" where
  "provided_args C resolve provider [] args kwargs s = (Inr (args, kwargs), s)"
| "provided_args C resolve provider (parameter # ps) args kwargs s =
     (case provided_instance C resolve provider parameter s of
        (Inl e, s') \<Rightarrow> (Inl e, s')
      | (Inr instance, s') \<Rightarrow>
          if kind parameter = POSITIONAL_ONLY
          then provided_args C resolve provider ps (args @ [instance]) kwargs s'
          else provided_args C resolve provider ps args (kwargs(name parameter \<mapsto> instance)) s')"

definition get_provided_args ::
  "container \<Rightarrow> provider \<Rightarrow> state \<Rightarrow> (exc + args \<times> kwargs) \<times> state" where
  "get_provided_args C provider s =
     provided_args C (resolve_parameter C) provider (parameters provider) [] Map.empty s"

definition aget_provided_args ::
  "container \<Rightarrow> provider \<Rightarrow> state \<Rightarrow> (exc + args \<times> kwargs) \<times> state" where
  "aget_provided_args C provider s =
     provided_args C (aresolve_parameter C) provider (parameters provider) [] Map.empty s"

section \<open>Creating instances\<close>

text \<open>
  \<^verbatim>\<open>ExitStack.enter_context\<close> and \<^verbatim>\<open>AsyncExitStack.enter_async_context\<close> of the
  standard library: enter the manager; if that raises, nothing is registered; otherwise
  its exit callback is pushed and the value of entering is returned.
\<close>

definition enter_context :: "'v cm \<Rightarrow> state \<Rightarrow> (exc + 'v) \<times> state" where
  "enter_context cm s =
     (case cm_enter cm of
        Inl e \<Rightarrow> (Inl e, s)
      | Inr v \<Rightarrow> (Inr v, s\<lparr>stack := stack s @ [(cm_resource cm, cm_exit cm)]\<rparr>))"

definition enter_async_context :: "'v cm \<Rightarrow> state \<Rightarrow> (exc + 'v) \<times> state" where
  "enter_async_context cm s =
     (case cm_enter cm of
        Inl e \<Rightarrow> (Inl e, s)
      | Inr v \<Rightarrow> (Inr v, s\<lparr>async_stack := async_stack s @ [(cm_resource cm, cm_exit cm)]\<rparr>))"

text \<open>
  \<^verbatim>\<open>run_async\<close>, as \<^verbatim>\<open>pyxdi/utils.py\<close> has it (\<^verbatim>\<open>anydi/_utils.py\<close> is not
  among the source files): without \<^verbatim>\<open>anyio\<close> it raises \<^verbatim>\<open>ImportError\<close>; otherwise
  the function runs in a worker thread and its result, or its exception, is the result
  of the call.
\<close>

definition run_async :: "(state \<Rightarrow> (exc + 'a) \<times> state) \<Rightarrow> state \<Rightarrow> (exc + 'a) \<times> state" where
  "run_async func s =
     (if \<not> anyio_installed s
      then (Inl (Exc ImportError
              (''`anyio` library is not currently installed. Please make sure to install '' @
               ''it first, or consider using `pyxdi[full]` instead.'')), s)
      else func s)"

text \<open>
  Invoking the factory: it gets the serial number of the invocation, and the invocation
  is recorded.
\<close>

definition invoke ::
  "provider \<Rightarrow> (args \<Rightarrow> kwargs \<Rightarrow> nat \<Rightarrow> 'r) \<Rightarrow> args \<Rightarrow> kwargs \<Rightarrow> state \<Rightarrow> 'r \<times> state" where
  "invoke provider f args kwargs s =
     (f args kwargs (length (calls s)), s\<lparr>calls := calls s @ [interface provider]\<rparr>)"

definition sync_mode_message :: "provider \<Rightarrow> string" where
  "sync_mode_message provider =
     ''The instance for the provider `'' @ str provider @
     ''` cannot be created in synchronous mode.''"

text \<open>
  \<^verbatim>\<open>ScopedContext._create_instance\<close>. \<^verbatim>\<open>provider.kind\<close> is the constructor of
  \<^verbatim>\<open>provider.call\<close>: the two asynchronous kinds raise before anything else happens,
  the other two resolve the arguments first.
\<close>

definition create_instance :: "container \<Rightarrow> provider \<Rightarrow> state \<Rightarrow> (exc + val) \<times> state" where
  "create_instance C provider s =
     (case call provider of
        Coroutine f \<Rightarrow> (Inl (Exc TypeError (sync_mode_message provider)), s)
      | AsyncGenerator g \<Rightarrow> (Inl (Exc TypeError (sync_mode_message provider)), s)
      | Generator g \<Rightarrow>
          (case get_provided_args C provider s of
             (Inl e, s1) \<Rightarrow> (Inl e, s1)
           | (Inr (args, kwargs), s1) \<Rightarrow>
               (case invoke provider g args kwargs s1 of
                  (cm, s2) \<Rightarrow> enter_context cm s2))
      | Plain f \<Rightarrow>
          (case get_provided_args C provider s of
             (Inl e, s1) \<Rightarrow> (Inl e, s1)
           | (Inr (args, kwargs), s1) \<Rightarrow>
               (case invoke provider f args kwargs s1 of
                  (Inl e, s2) \<Rightarrow> (Inl e, s2)
                | (Inr instance, s2) \<Rightarrow>
                    (case AbstractContextManager instance of
                       None \<Rightarrow> (Inr instance, s2)
                     | Some cm \<Rightarrow>
                         (case enter_context cm s2 of
                            (Inl e, s3) \<Rightarrow> (Inl e, s3)
                          | (Inr u, s3) \<Rightarrow> (Inr instance, s3))))))"

text \<open>\<^verbatim>\<open>ScopedContext.get_or_create\<close>.\<close>

definition get_or_create :: "container \<Rightarrow> provider \<Rightarrow> state \<Rightarrow> (exc + val \<times> bool) \<times> state" where
  "get_or_create C provider s =
     (let instance = dict_get (instances s) (interface provider) in
      if instance = PyNone then
        (case create_instance C provider s of
           (Inl e, s') \<Rightarrow> (Inl e, s')
         | (Inr instance', s') \<Rightarrow>
             (Inr (instance', True),
              s'\<lparr>instances := (instances s')(interface provider \<mapsto> instance')\<rparr>))
      else (Inr (instance, False), s))"

text \<open>\<^verbatim>\<open>ScopedContext._acreate_instance\<close>.\<close>

definition acreate_instance :: "container \<Rightarrow> provider \<Rightarrow> state \<Rightarrow> (exc + val) \<times> state" where
  "acreate_instance C provider s =
     (case aget_provided_args C provider s of
        (Inl e, s1) \<Rightarrow> (Inl e, s1)
      | (Inr (args, kwargs), s1) \<Rightarrow>
          (case call provider of
             Coroutine f \<Rightarrow>
               (case invoke provider f args kwargs s1 of
                  (Inl e, s2) \<Rightarrow> (Inl e, s2)
                | (Inr instance, s2) \<Rightarrow>
                    (case AbstractAsyncContextManager instance of
                       None \<Rightarrow> (Inr instance, s2)
                     | Some cm \<Rightarrow>
                         (case enter_async_context cm s2 of
                            (Inl e, s3) \<Rightarrow> (Inl e, s3)
                          | (Inr u, s3) \<Rightarrow> (Inr instance, s3))))
           | AsyncGenerator g \<Rightarrow>
               (case invoke provider g args kwargs s1 of
                  (cm, s2) \<Rightarrow> enter_async_context cm s2)
           | Generator g \<Rightarrow>
               run_async
                 (\<lambda>t. case invoke provider g args kwargs t of (cm, t2) \<Rightarrow> enter_context cm t2)
                 s1
           | Plain f \<Rightarrow>
               (case run_async (invoke provider f args kwargs) s1 of
                  (Inl e, s2) \<Rightarrow> (Inl e, s2)
                | (Inr instance, s2) \<Rightarrow>
                    (case AbstractAsyncContextManager instance of
                       None \<Rightarrow> (Inr instance, s2)
                     | Some cm \<Rightarrow>
                         (case enter_async_context cm s2 of
                            (Inl e, s3) \<Rightarrow> (Inl e, s3)
                          | (Inr u, s3) \<Rightarrow> (Inr instance, s3))))))"

text \<open>\<^verbatim>\<open>ScopedContext.aget_or_create\<close>.\<close>

definition aget_or_create :: "container \<Rightarrow> provider \<Rightarrow> state \<Rightarrow> (exc + val \<times> bool) \<times> state" where
  "aget_or_create C provider s =
     (let instance = dict_get (instances s) (interface provider) in
      if instance = PyNone then
        (case acreate_instance C provider s of
           (Inl e, s') \<Rightarrow> (Inl e, s')
         | (Inr instance', s') \<Rightarrow>
             (Inr (instance', True),
              s'\<lparr>instances := (instances s')(interface provider \<mapsto> instance')\<rparr>))
      else (Inr (instance, False), s))"

text \<open>
  \<^verbatim>\<open>TransientContext\<close> overrides both: no look at the cache, no store.
  \<^verbatim>\<open>SingletonContext\<close> and \<^verbatim>\<open>RequestContext\<close> inherit the two functions above.
\<close>

definition TransientContext_get_or_create ::
  "container \<Rightarrow> provider \<Rightarrow> state \<Rightarrow> (exc + val \<times> bool) \<times> state" where
  "TransientContext_get_or_create C provider s =
     (case create_instance C provider s of
        (Inl e, s') \<Rightarrow> (Inl e, s')
      | (Inr instance, s') \<Rightarrow> (Inr (instance, True), s'))"

definition TransientContext_aget_or_create ::
  "container \<Rightarrow> provider \<Rightarrow> state \<Rightarrow> (exc + val \<times> bool) \<times> state" where
  "TransientContext_aget_or_create C provider s =
     (case acreate_instance C provider s of
        (Inl e, s') \<Rightarrow> (Inl e, s')
      | (Inr instance, s') \<Rightarrow> (Inr (instance, True), s'))"

section \<open>Closing the context\<close>

text \<open>
  \<^verbatim>\<open>ExitStack.__exit__\<close> of the standard library (and \<^verbatim>\<open>AsyncExitStack.__aexit__\<close>,
  which runs the same loop with awaited callbacks). The callbacks are popped and called
  last-registered first. A callback that returns true clears the pending exception;
  one that raises makes its exception the pending one; the loop goes on either way.
  After the loop a pending raised exception is raised, otherwise the result tells
  whether an exception passed in was suppressed. The chain of \<^verbatim>\<open>__context__\<close> links
  between the exceptions is not modelled.
\<close>

fun exit_callbacks ::
  "(nat \<times> exit_fn) list \<Rightarrow> exc option \<Rightarrow> bool \<Rightarrow> bool \<Rightarrow> nat list \<Rightarrow>
   exc option \<times> bool \<times> bool \<times> nat list" where
  "exit_callbacks [] exc suppressed_exc pending_raise log =
     (exc, suppressed_exc, pending_raise, log)"
| "exit_callbacks ((r, cb) # cbs) exc suppressed_exc pending_raise log =
     (case cb exc of
        ExitReturned b \<Rightarrow>
          if b then exit_callbacks cbs None True False (log @ [r])
          else exit_callbacks cbs exc suppressed_exc pending_raise (log @ [r])
      | ExitRaised new_exc \<Rightarrow>
          exit_callbacks cbs (Some new_exc) suppressed_exc True (log @ [r]))"

definition ExitStack_exit ::
  "(nat \<times> exit_fn) list \<Rightarrow> exc option \<Rightarrow> nat list \<Rightarrow> (exc + bool) \<times> nat list" where
  "ExitStack_exit callbacks exc log =
     (case exit_callbacks (rev callbacks) exc False False log of
        (exc', suppressed_exc, pending_raise, log') \<Rightarrow>
          (case exc' of
             Some e \<Rightarrow>
               if pending_raise then (Inl e, log')
               else (Inr (exc \<noteq> None \<and> suppressed_exc), log')
           | None \<Rightarrow> (Inr (exc \<noteq> None \<and> suppressed_exc), log')))"

text \<open>\<^verbatim>\<open>ScopedContext.__exit__\<close>: the exit of the synchronous stack, which is left empty.\<close>

definition exit_context :: "exc option \<Rightarrow> state \<Rightarrow> (exc + bool) \<times> state" where
  "exit_context exc s =
     (case ExitStack_exit (stack s) exc (released s) of
        (r, log) \<Rightarrow> (r, s\<lparr>stack := [], released := log\<rparr>))"

text \<open>\<^verbatim>\<open>ScopedContext.close\<close>.\<close>

definition close :: "state \<Rightarrow> (exc + unit) \<times> state" where
  "close s =
     (case exit_context None s of
        (Inl e, s') \<Rightarrow> (Inl e, s')
      | (Inr b, s') \<Rightarrow> (Inr (), s'))"

text \<open>The exit of the asynchronous stack.\<close>

definition async_stack_aexit :: "exc option \<Rightarrow> state \<Rightarrow> (exc + bool) \<times> state" where
  "async_stack_aexit exc s =
     (case ExitStack_exit (async_stack s) exc (released s) of
        (r, log) \<Rightarrow> (r, s\<lparr>async_stack := [], released := log\<rparr>))"

text \<open>
  \<^verbatim>\<open>ScopedContext.__aexit__\<close>:
  \<^verbatim>\<open>await run_async(self.__exit__, ...) or await self._async_stack.__aexit__(...)\<close>.
  The right operand of \<^verbatim>\<open>or\<close> is evaluated only when the left one returned false.
\<close>

definition aexit_context :: "exc option \<Rightarrow> state \<Rightarrow> (exc + bool) \<times> state" where
  "aexit_context exc s =
     (case run_async (exit_context exc) s of
        (Inl e, s1) \<Rightarrow> (Inl e, s1)
      | (Inr b, s1) \<Rightarrow> if b then (Inr True, s1) else async_stack_aexit exc s1)"

text \<open>\<^verbatim>\<open>ScopedContext.aclose\<close>.\<close>

definition aclose :: "state \<Rightarrow> (exc + unit) \<times> state" where
  "aclose s =
     (case aexit_context None s of
        (Inl e, s') \<Rightarrow> (Inl e, s')
      | (Inr b, s') \<Rightarrow> (Inr (), s'))"

text \<open>
  The exception that is pending once the exit callbacks of the given stack have run
  (last registered first), starting with nothing pending.
\<close>

definition pending_after :: "(nat \<times> exit_fn) list \<Rightarrow> exc option" where
  "pending_after callbacks = fst (exit_callbacks (rev callbacks) None False False [])"

section \<open>Two callers of get_or_create\<close>

text \<open>
  \<^verbatim>\<open>get_or_create\<close> in two steps, as its lines stand: the read of the cache
  (\<^verbatim>\<open>instance = self._instances.get(provider.interface)\<close>), and the rest, which works
  on the value read. Nothing in the source holds a lock between the two, so another
  caller can run in between.
\<close>

definition cache_read :: "provider \<Rightarrow> state \<Rightarrow> val" where
  "cache_read provider s = dict_get (instances s) (interface provider)"

definition after_read ::
  "container \<Rightarrow> provider \<Rightarrow> val \<Rightarrow> state \<Rightarrow> (exc + val \<times> bool) \<times> state" where
  "after_read C provider instance s =
     (if instance = PyNone then
        (case create_instance C provider s of
           (Inl e, s') \<Rightarrow> (Inl e, s')
         | (Inr instance', s') \<Rightarrow>
             (Inr (instance', True),
              s'\<lparr>instances := (instances s')(interface provider \<mapsto> instance')\<rparr>))
      else (Inr (instance, False), s))"

text \<open>
  Two callers on one context. A schedule is a list of actions; \<^verbatim>\<open>Read\<close> does the
  caller's cache read and keeps the value for it, \<^verbatim>\<open>Finish\<close> runs the rest of its call
  on the value it read (a caller that has not read yet does nothing).
\<close>

datatype caller = Caller_A | Caller_B

datatype action = Read caller | Finish caller

record racing =
  read_of :: "caller \<rightharpoonup> val"
  result_of :: "caller \<rightharpoonup> (exc + val \<times> bool)"
  shared :: state

fun step :: "container \<Rightarrow> provider \<Rightarrow> racing \<Rightarrow> action \<Rightarrow> racing" where
  "step C provider r (Read c) = r\<lparr>read_of := (read_of r)(c \<mapsto> cache_read provider (shared r))\<rparr>"
| "step C provider r (Finish c) =
     (case read_of r c of
        None \<Rightarrow> r
      | Some instance \<Rightarrow>
          (case after_read C provider instance (shared r) of
             (res, s') \<Rightarrow> r\<lparr>result_of := (result_of r)(c \<mapsto> res), shared := s'\<rparr>))"

definition run_schedule :: "container \<Rightarrow> provider \<Rightarrow> action list \<Rightarrow> state \<Rightarrow> racing" where
  "run_schedule C provider schedule s =
     foldl (step C provider) \<lparr>read_of = Map.empty, result_of = Map.empty, shared = s\<rparr> schedule"

section \<open>What a factory produces\<close>

text \<open>
  The instance a factory hands over at invocation \<open>n\<close>, if it hands one over: the value
  returned, or the value yielded when the guard is entered.
\<close>

definition produced :: "callable \<Rightarrow> args \<Rightarrow> kwargs \<Rightarrow> nat \<Rightarrow> val option" where
  "produced c args kwargs n =
     (case c of
        Plain f \<Rightarrow> (case f args kwargs n of Inl e \<Rightarrow> None | Inr v \<Rightarrow> Some v)
      | Coroutine f \<Rightarrow> (case f args kwargs n of Inl e \<Rightarrow> None | Inr v \<Rightarrow> Some v)
      | Generator g \<Rightarrow> (case cm_enter (g args kwargs n) of Inl e \<Rightarrow> None | Inr v \<Rightarrow> Some v)
      | AsyncGenerator g \<Rightarrow> (case cm_enter (g args kwargs n) of Inl e \<Rightarrow> None | Inr v \<Rightarrow> Some v))"

text \<open>A factory that never hands over the same object at two different invocations.\<close>

definition returns_new_objects :: "callable \<Rightarrow> bool" where
  "returns_new_objects c =
     (\<forall>args kwargs n args' kwargs' n' v.
        n \<noteq> n' \<and> produced c args kwargs n = Some v \<longrightarrow> produced c args' kwargs' n' \<noteq> Some v)"

text \<open>
  Two frame conditions on the container's parameter resolution: it only adds to the
  record of factory invocations, and it leaves the instance map of this context alone.
\<close>

definition keeps_call_log ::
  "(provider \<Rightarrow> parameter \<Rightarrow> state \<Rightarrow> (exc + val) \<times> state) \<Rightarrow> bool" where
  "keeps_call_log resolve =
     (\<forall>p par t. length (calls t) \<le> length (calls (snd (resolve p par t))))"

definition keeps_instances ::
  "(provider \<Rightarrow> parameter \<Rightarrow> state \<Rightarrow> (exc + val) \<times> state) \<Rightarrow> bool" where
  "keeps_instances resolve = (\<forall>p par t. instances (snd (resolve p par t)) = instances t)"

section \<open>Example contexts, providers and containers\<close>

definition empty_context :: state where
  "empty_context =
     \<lparr>instances = Map.empty, stack = [], async_stack = [], calls = [], released = [],
      anyio_installed = True\<rparr>"

text \<open>Exit callbacks: one that returns false whatever is pending, one that always raises.\<close>

definition release_ok :: exit_fn where
  "release_ok = (\<lambda>pending. ExitReturned False)"

definition release_fails :: "string \<Rightarrow> exit_fn" where
  "release_fails msg = (\<lambda>pending. ExitRaised (Exc OtherError msg))"

text \<open>Resource 1 (of provider A) was acquired first, resource 2 (of B) second; both releases fail.\<close>

definition context_A_then_B_failing :: state where
  "context_A_then_B_failing =
     empty_context\<lparr>stack := [(1, release_fails ''A''), (2, release_fails ''B'')]\<rparr>"

definition context_middle_failing :: state where
  "context_middle_failing =
     empty_context\<lparr>stack := [(1, release_ok), (2, release_fails ''B''), (3, release_ok)]\<rparr>"

definition context_all_ok :: state where
  "context_all_ok = empty_context\<lparr>stack := [(1, release_ok), (2, release_ok)]\<rparr>"

text \<open>One synchronous resource whose release fails, one asynchronous resource.\<close>

definition context_sync_failing_async_open :: state where
  "context_sync_failing_async_open =
     empty_context\<lparr>stack := [(1, release_fails ''A'')], async_stack := [(2, release_ok)]\<rparr>"

text \<open>
  The cleanup of a generator without \<^verbatim>\<open>try/finally\<close>: the code after \<^verbatim>\<open>yield\<close> runs,
  and fails, only when no exception is thrown into the generator; a thrown exception
  leaves the generator as it came, and the exit returns false.
\<close>

definition release_fails_if_clean :: "string \<Rightarrow> exit_fn" where
  "release_fails_if_clean msg =
     (\<lambda>pending. case pending of
                  None \<Rightarrow> ExitRaised (Exc OtherError msg)
                | Some e \<Rightarrow> ExitReturned False)"

definition context_generator_cleanup_failing :: state where
  "context_generator_cleanup_failing =
     empty_context\<lparr>stack := [(1, release_ok), (2, release_fails_if_clean ''B'')]\<rparr>"

text \<open>A synchronous resource whose exit suppresses the exception it is given.\<close>

definition release_suppresses :: exit_fn where
  "release_suppresses = (\<lambda>pending. ExitReturned True)"

definition context_sync_suppressing_async_open :: state where
  "context_sync_suppressing_async_open =
     empty_context\<lparr>stack := [(1, release_suppresses)], async_stack := [(2, release_ok)]\<rparr>"

definition context_with_cached_dep :: state where
  "context_with_cached_dep = empty_context\<lparr>instances := [''Dep'' \<mapsto> Obj 5 None None]\<rparr>"

text \<open>A context that already holds an instance for \<^verbatim>\<open>Service\<close>.\<close>

definition context_with_cached_service :: state where
  "context_with_cached_service =
     empty_context\<lparr>instances := [''Service'' \<mapsto> Obj 5 None None]\<rparr>"

definition dep_parameter :: parameter where
  "dep_parameter =
     \<lparr>name = ''dep'', annotation = ''Dep'', default_value = None, kind = POSITIONAL_OR_KEYWORD\<rparr>"

definition dep_parameter_with_default :: parameter where
  "dep_parameter_with_default = dep_parameter\<lparr>default_value := Some (Obj 9 None None)\<rparr>"

text \<open>A container with nothing registered: every lookup raises \<^verbatim>\<open>LookupError\<close>.\<close>

definition unregistered :: "provider \<Rightarrow> parameter \<Rightarrow> state \<Rightarrow> (exc + val) \<times> state" where
  "unregistered p par s = (Inl (Exc LookupError (annotation par)), s)"

definition empty_container :: container where
  "empty_container =
     \<lparr>override_instances = Map.empty, testing = False,
      resolve_parameter = unregistered, aresolve_parameter = unregistered\<rparr>"

text \<open>
  A container in testing mode that overrides \<^verbatim>\<open>Dep\<close>, and whose parameter resolution
  would run a factory for the parameter.
\<close>

definition creating :: "provider \<Rightarrow> parameter \<Rightarrow> state \<Rightarrow> (exc + val) \<times> state" where
  "creating p par s =
     (Inr (Obj (length (calls s)) None None), s\<lparr>calls := calls s @ [annotation par]\<rparr>)"

definition overriding_container :: container where
  "overriding_container =
     \<lparr>override_instances = [''Dep'' \<mapsto> Obj 100 None None], testing = True,
      resolve_parameter = creating, aresolve_parameter = creating\<rparr>"

definition creating_container :: container where
  "creating_container =
     \<lparr>override_instances = Map.empty, testing = False,
      resolve_parameter = creating, aresolve_parameter = creating\<rparr>"

text \<open>An event: a generator provider that yields \<^verbatim>\<open>None\<close> and guards one resource.\<close>

definition event_provider :: provider where
  "event_provider =
     \<lparr>interface = ''Event'',
      call = Generator (\<lambda>args kwargs n. CM n (Inr PyNone) release_ok),
      parameters = [], str = ''event''\<rparr>"

text \<open>A factory that returns one shared object, and one that builds a new object per call.\<close>

definition shared_provider :: provider where
  "shared_provider =
     \<lparr>interface = ''Settings'',
      call = Plain (\<lambda>args kwargs n. Inr (Obj 7 None None)),
      parameters = [], str = ''settings''\<rparr>"

definition fresh_provider :: provider where
  "fresh_provider =
     \<lparr>interface = ''Service'',
      call = Plain (\<lambda>args kwargs n. Inr (Obj n None None)),
      parameters = [], str = ''service''\<rparr>"

definition service_provider :: provider where
  "service_provider =
     \<lparr>interface = ''Service'',
      call = Plain (\<lambda>args kwargs n. Inr (Obj n None None)),
      parameters = [dep_parameter], str = ''service''\<rparr>"

definition service_provider_with_default :: provider where
  "service_provider_with_default =
     service_provider\<lparr>parameters := [dep_parameter_with_default]\<rparr>"

definition coroutine_provider :: provider where
  "coroutine_provider =
     \<lparr>interface = ''Service'',
      call = Coroutine (\<lambda>args kwargs n. Inr (Obj n None None)),
      parameters = [dep_parameter], str = ''service''\<rparr>"

text \<open>The context once the event has been resolved: \<^verbatim>\<open>None\<close> is cached for it.\<close>

definition context_after_event :: state where
  "context_after_event =
     empty_context\<lparr>instances := [''Event'' \<mapsto> PyNone], stack := [(0, release_ok)],
       calls := [''Event'']\<rparr>"

section \<open>Synchronous creation of asynchronous providers\<close>

lemma needle_in_message:
  "sublist ''cannot be created in synchronous mode'' (sync_mode_message provider)"
  unfolding sync_mode_message_def sublist_def
  by (rule exI[of _ "''The instance for the provider `'' @ str provider @ ''` ''"], rule exI[of _ "''.''"]) simp

lemma create_instance_async_kind:
  assumes "provider_kind provider \<in> {COROUTINE, ASYNC_GENERATOR}"
  shows "create_instance C provider s = (Inl (Exc TypeError (sync_mode_message provider)), s)"
  using assms by (cases "call provider") (simp_all add: provider_kind_def create_instance_def)

text \<open>
  C2, as amended: for a provider whose call kind is \<^verbatim>\<open>COROUTINE\<close> or
  \<^verbatim>\<open>ASYNC_GENERATOR\<close>, \<^verbatim>\<open>_create_instance\<close> and \<^verbatim>\<open>TransientContext.get_or_create\<close>
  raise \<^verbatim>\<open>TypeError\<close> with a message that contains "cannot be created in synchronous
  mode", and produce no instance. \<^verbatim>\<open>get_or_create\<close> raises it when the cache gives no
  instance other than \<^verbatim>\<open>None\<close> for the interface; when the cache holds such an
  instance, it is returned with \<^verbatim>\<open>created = False\<close> and nothing is raised.
\<close>

theorem sync_creation_of_async_provider_raises_TypeError:
  assumes "provider_kind provider \<in> {COROUTINE, ASYNC_GENERATOR}"
  shows "fst (create_instance C provider s) = Inl (Exc TypeError (sync_mode_message provider))
       \<and> sublist ''cannot be created in synchronous mode'' (sync_mode_message provider)
       \<and> fst (TransientContext_get_or_create C provider s)
           = Inl (Exc TypeError (sync_mode_message provider))
       \<and> (dict_get (instances s) (interface provider) = PyNone \<longrightarrow>
            fst (get_or_create C provider s) = Inl (Exc TypeError (sync_mode_message provider)))
       \<and> (dict_get (instances s) (interface provider) \<noteq> PyNone \<longrightarrow>
            get_or_create C provider s
              = (Inr (dict_get (instances s) (interface provider), False), s))"
  using create_instance_async_kind[OF assms, of C s] needle_in_message[of provider]
  by (simp add: TransientContext_get_or_create_def get_or_create_def)

theorem sync_creation_of_async_provider_raises_TypeError_witness:
  "provider_kind coroutine_provider \<in> {COROUTINE, ASYNC_GENERATOR}
   \<and> fst (create_instance creating_container coroutine_provider empty_context)
       = Inl (Exc TypeError
           ''The instance for the provider `service` cannot be created in synchronous mode.'')
   \<and> fst (TransientContext_get_or_create creating_container coroutine_provider empty_context)
       = Inl (Exc TypeError
           ''The instance for the provider `service` cannot be created in synchronous mode.'')
   \<and> dict_get (instances empty_context) (interface coroutine_provider) = PyNone
   \<and> fst (get_or_create creating_container coroutine_provider empty_context)
       = Inl (Exc TypeError
           ''The instance for the provider `service` cannot be created in synchronous mode.'')
   \<and> dict_get (instances context_with_cached_service) (interface coroutine_provider)
       = Obj 5 None None
   \<and> get_or_create creating_container coroutine_provider context_with_cached_service
       = (Inr (Obj 5 None None, False), context_with_cached_service)"
proof -
  have k: "provider_kind coroutine_provider \<in> {COROUTINE, ASYNC_GENERATOR}"
    by (simp add: provider_kind_def coroutine_provider_def)
  have m: "sync_mode_message coroutine_provider =
      ''The instance for the provider `service` cannot be created in synchronous mode.''"
    by (simp add: sync_mode_message_def coroutine_provider_def)
  have d: "dict_get (instances empty_context) (interface coroutine_provider) = PyNone"
    by (simp add: dict_get_def empty_context_def)
  have c: "dict_get (instances context_with_cached_service) (interface coroutine_provider)
             = Obj 5 None None"
    by (simp add: dict_get_def context_with_cached_service_def empty_context_def
        coroutine_provider_def)
  have a: "fst (create_instance creating_container coroutine_provider empty_context)
       = Inl (Exc TypeError
           ''The instance for the provider `service` cannot be created in synchronous mode.'')
   \<and> fst (TransientContext_get_or_create creating_container coroutine_provider empty_context)
       = Inl (Exc TypeError
           ''The instance for the provider `service` cannot be created in synchronous mode.'')
   \<and> fst (get_or_create creating_container coroutine_provider empty_context)
       = Inl (Exc TypeError
           ''The instance for the provider `service` cannot be created in synchronous mode.'')"
    using sync_creation_of_async_provider_raises_TypeError
            [OF k, of creating_container empty_context] m d
    by simp
  have b: "get_or_create creating_container coroutine_provider context_with_cached_service
       = (Inr (Obj 5 None None, False), context_with_cached_service)"
    using sync_creation_of_async_provider_raises_TypeError
            [OF k, of creating_container context_with_cached_service] c
    by simp
  from k d c a b show ?thesis by simp
qed

text \<open>
  C2 as stated fails for \<^verbatim>\<open>get_or_create\<close>: with an instance of the coroutine provider
  in the cache (put there by an asynchronous resolution), the synchronous call returns
  it and raises no \<^verbatim>\<open>TypeError\<close>.
\<close>

theorem get_or_create_returns_cached_instance_of_async_provider:
  "provider_kind coroutine_provider = COROUTINE
   \<and> get_or_create creating_container coroutine_provider context_with_cached_service
       = (Inr (Obj 5 None None, False), context_with_cached_service)"
  by (simp add: provider_kind_def get_or_create_def dict_get_def coroutine_provider_def
      context_with_cached_service_def empty_context_def Let_def)

text \<open>
  C10: that failure is atomic. The error is raised before any parameter is resolved
  (the outcome does not depend on the container), and the state is left as it was:
  the instance cache, both cleanup stacks and the record of factory invocations.
\<close>

theorem sync_failure_is_atomic:
  assumes "provider_kind provider \<in> {COROUTINE, ASYNC_GENERATOR}"
  shows "snd (create_instance C provider s) = s
       \<and> snd (TransientContext_get_or_create C provider s) = s
       \<and> snd (get_or_create C provider s) = s
       \<and> create_instance C' provider s = create_instance C provider s"
  using create_instance_async_kind[OF assms, of C s] create_instance_async_kind[OF assms, of C' s]
  by (simp add: TransientContext_get_or_create_def get_or_create_def Let_def)

theorem sync_failure_is_atomic_witness:
  "provider_kind coroutine_provider \<in> {COROUTINE, ASYNC_GENERATOR}
   \<and> snd (create_instance creating_container coroutine_provider empty_context) = empty_context
   \<and> snd (TransientContext_get_or_create creating_container coroutine_provider empty_context)
       = empty_context
   \<and> snd (get_or_create creating_container coroutine_provider empty_context) = empty_context
   \<and> create_instance empty_container coroutine_provider empty_context
       = create_instance creating_container coroutine_provider empty_context"
proof -
  have k: "provider_kind coroutine_provider \<in> {COROUTINE, ASYNC_GENERATOR}"
    by (simp add: provider_kind_def coroutine_provider_def)
  show ?thesis
    using sync_failure_is_atomic
            [OF k, of creating_container empty_context empty_container] k
    by simp
qed

section \<open>The arguments of a provider\<close>

lemma provided_args_append:
  "provided_args C resolve provider (xs @ ys) args kwargs s =
     (case provided_args C resolve provider xs args kwargs s of
        (Inl e, s') \<Rightarrow> (Inl e, s')
      | (Inr (args', kwargs'), s') \<Rightarrow> provided_args C resolve provider ys args' kwargs' s')"
  by (induction xs arbitrary: args kwargs s) (auto split: prod.splits sum.splits)

lemma provided_instance_override:
  assumes "override_instances C (annotation parameter) = Some x"
  shows "provided_instance C resolve provider parameter s = (Inr x, s)"
  using assms by (simp add: provided_instance_def)

lemma provided_args_override:
  assumes "override_instances C (annotation parameter) = Some x"
    and "parameters provider = pre @ parameter # post"
    and "provided_args C resolve provider pre [] Map.empty s = (Inr (args, kwargs), s1)"
  shows "provided_args C resolve provider (parameters provider) [] Map.empty s =
         provided_args C resolve provider post
           (if kind parameter = POSITIONAL_ONLY then args @ [x] else args)
           (if kind parameter = POSITIONAL_ONLY then kwargs else kwargs(name parameter \<mapsto> x)) s1"
  using assms by (simp add: provided_args_append provided_instance_override)

text \<open>
  C4: a parameter whose interface is in the override table gets the override instance.
  The table is looked at before the cache of the context and before the container is
  asked, so the choice holds whatever the cache holds and whatever the container would
  do; the state is unchanged (nothing is stored in the cache, no factory is invoked).
  In both \<^verbatim>\<open>_get_provided_args\<close> and \<^verbatim>\<open>_aget_provided_args\<close> the loop goes on
  with the override instance bound to the parameter.
\<close>

theorem override_instance_is_used_first:
  assumes "override_instances C (annotation parameter) = Some x"
  shows "provided_instance C resolve provider parameter s = (Inr x, s)
       \<and> (parameters provider = pre @ parameter # post \<longrightarrow>
          provided_args C (resolve_parameter C) provider pre [] Map.empty s = (Inr (args, kwargs), s1) \<longrightarrow>
          get_provided_args C provider s =
            provided_args C (resolve_parameter C) provider post
              (if kind parameter = POSITIONAL_ONLY then args @ [x] else args)
              (if kind parameter = POSITIONAL_ONLY then kwargs else kwargs(name parameter \<mapsto> x)) s1)
       \<and> (parameters provider = pre @ parameter # post \<longrightarrow>
          provided_args C (aresolve_parameter C) provider pre [] Map.empty s = (Inr (args, kwargs), s1) \<longrightarrow>
          aget_provided_args C provider s =
            provided_args C (aresolve_parameter C) provider post
              (if kind parameter = POSITIONAL_ONLY then args @ [x] else args)
              (if kind parameter = POSITIONAL_ONLY then kwargs else kwargs(name parameter \<mapsto> x)) s1)"
  unfolding get_provided_args_def aget_provided_args_def
  using provided_instance_override[OF assms] provided_args_override[OF assms]
  by blast

theorem override_instance_is_used_first_witness:
  "override_instances overriding_container (annotation dep_parameter) = Some (Obj 100 None None)
   \<and> instances context_with_cached_dep ''Dep'' = Some (Obj 5 None None)
   \<and> provided_instance overriding_container creating service_provider dep_parameter
         context_with_cached_dep
       = (Inr (Obj 100 None None), context_with_cached_dep)
   \<and> fst (get_provided_args overriding_container service_provider context_with_cached_dep)
       = Inr ([], [''dep'' \<mapsto> Obj 100 None None])
   \<and> snd (get_provided_args overriding_container service_provider context_with_cached_dep)
       = context_with_cached_dep
   \<and> fst (aget_provided_args overriding_container service_provider context_with_cached_dep)
       = Inr ([], [''dep'' \<mapsto> Obj 100 None None])
   \<and> snd (aget_provided_args overriding_container service_provider context_with_cached_dep)
       = context_with_cached_dep"
proof -
  have ov: "override_instances overriding_container (annotation dep_parameter)
              = Some (Obj 100 None None)"
    by (simp add: overriding_container_def dep_parameter_def)
  have c: "instances context_with_cached_dep ''Dep'' = Some (Obj 5 None None)"
    by (simp add: context_with_cached_dep_def empty_context_def)
  have ps: "parameters service_provider = [] @ dep_parameter # []"
    by (simp add: service_provider_def)
  have k: "kind dep_parameter \<noteq> POSITIONAL_ONLY" "name dep_parameter = ''dep''"
    by (simp_all add: dep_parameter_def)
  show ?thesis
    using override_instance_is_used_first
            [OF ov, of creating service_provider context_with_cached_dep "[]" "[]" "[]"
               Map.empty context_with_cached_dep] ov c ps k
    by simp
qed

lemma provided_instance_lookup_error:
  assumes "override_instances C (annotation parameter) = None"
    and "instances s (annotation parameter) = None"
    and "resolve provider parameter s = (Inl e, s')"
    and "isinstance_LookupError e"
  shows "provided_instance C resolve provider parameter s =
           (case default_value parameter of None \<Rightarrow> (Inl e, s') | Some d \<Rightarrow> (Inr d, s'))"
  using assms by (simp add: provided_instance_def)

lemma provided_args_lookup_error_no_default:
  assumes "override_instances C (annotation parameter) = None"
    and "instances s1 (annotation parameter) = None"
    and "resolve provider parameter s1 = (Inl e, s2)"
    and "isinstance_LookupError e"
    and "parameters provider = pre @ parameter # post"
    and "provided_args C resolve provider pre [] Map.empty s = (Inr (args, kwargs), s1)"
    and "default_value parameter = None"
  shows "provided_args C resolve provider (parameters provider) [] Map.empty s = (Inl e, s2)"
  using assms by (simp add: provided_args_append provided_instance_lookup_error)

lemma provided_args_lookup_error_default:
  assumes "override_instances C (annotation parameter) = None"
    and "instances s1 (annotation parameter) = None"
    and "resolve provider parameter s1 = (Inl e, s2)"
    and "isinstance_LookupError e"
    and "parameters provider = pre @ parameter # post"
    and "provided_args C resolve provider pre [] Map.empty s = (Inr (args, kwargs), s1)"
    and "default_value parameter = Some d"
  shows "provided_args C resolve provider (parameters provider) [] Map.empty s =
         provided_args C resolve provider post
           (if kind parameter = POSITIONAL_ONLY then args @ [d] else args)
           (if kind parameter = POSITIONAL_ONLY then kwargs else kwargs(name parameter \<mapsto> d)) s2"
  using assms by (simp add: provided_args_append provided_instance_lookup_error)

lemma create_instance_args_error:
  assumes "get_provided_args C provider s = (Inl e, s')"
    and "provider_kind provider \<notin> {COROUTINE, ASYNC_GENERATOR}"
  shows "create_instance C provider s = (Inl e, s')"
  using assms by (cases "call provider") (simp_all add: create_instance_def provider_kind_def)

lemma acreate_instance_args_error:
  assumes "aget_provided_args C provider s = (Inl e, s')"
  shows "acreate_instance C provider s = (Inl e, s')"
  using assms by (simp add: acreate_instance_def)

text \<open>
  C3: a parameter that is neither overridden nor cached, and for which the container's
  lookup raises \<^verbatim>\<open>LookupError\<close>. With a default value the default is bound and the
  loop goes on; without one the \<^verbatim>\<open>LookupError\<close> leaves \<^verbatim>\<open>_get_provided_args\<close> and
  every caller up to \<^verbatim>\<open>get_or_create\<close>. The same holds asynchronously.
\<close>

theorem missing_dependency_default_or_LookupError:
  assumes "override_instances C (annotation parameter) = None"
    and "isinstance_LookupError e"
    and "parameters provider = pre @ parameter # post"
  shows
   "(instances s (annotation parameter) = None \<and> resolve provider parameter s = (Inl e, s') \<longrightarrow>
       provided_instance C resolve provider parameter s =
         (case default_value parameter of None \<Rightarrow> (Inl e, s') | Some d \<Rightarrow> (Inr d, s')))
  \<and> (provided_args C (resolve_parameter C) provider pre [] Map.empty s = (Inr (args, kwargs), s1)
       \<and> instances s1 (annotation parameter) = None
       \<and> resolve_parameter C provider parameter s1 = (Inl e, s2) \<longrightarrow>
       (case default_value parameter of
          None \<Rightarrow> get_provided_args C provider s = (Inl e, s2)
                \<and> (provider_kind provider \<notin> {COROUTINE, ASYNC_GENERATOR} \<longrightarrow>
                     create_instance C provider s = (Inl e, s2)
                   \<and> TransientContext_get_or_create C provider s = (Inl e, s2)
                   \<and> (dict_get (instances s) (interface provider) = PyNone \<longrightarrow>
                        get_or_create C provider s = (Inl e, s2)))
        | Some d \<Rightarrow>
            get_provided_args C provider s =
              provided_args C (resolve_parameter C) provider post
                (if kind parameter = POSITIONAL_ONLY then args @ [d] else args)
                (if kind parameter = POSITIONAL_ONLY then kwargs else kwargs(name parameter \<mapsto> d))
                s2))
  \<and> (provided_args C (aresolve_parameter C) provider pre [] Map.empty s = (Inr (args, kwargs), s1)
       \<and> instances s1 (annotation parameter) = None
       \<and> aresolve_parameter C provider parameter s1 = (Inl e, s2) \<longrightarrow>
       (case default_value parameter of
          None \<Rightarrow> aget_provided_args C provider s = (Inl e, s2)
                \<and> acreate_instance C provider s = (Inl e, s2)
                \<and> TransientContext_aget_or_create C provider s = (Inl e, s2)
                \<and> (dict_get (instances s) (interface provider) = PyNone \<longrightarrow>
                     aget_or_create C provider s = (Inl e, s2))
        | Some d \<Rightarrow>
            aget_provided_args C provider s =
              provided_args C (aresolve_parameter C) provider post
                (if kind parameter = POSITIONAL_ONLY then args @ [d] else args)
                (if kind parameter = POSITIONAL_ONLY then kwargs else kwargs(name parameter \<mapsto> d))
                s2))"
proof (intro conjI impI)
  assume "instances s (annotation parameter) = None \<and> resolve provider parameter s = (Inl e, s')"
  then show "provided_instance C resolve provider parameter s =
         (case default_value parameter of None \<Rightarrow> (Inl e, s') | Some d \<Rightarrow> (Inr d, s'))"
    using assms provided_instance_lookup_error by blast
next
  assume h: "provided_args C (resolve_parameter C) provider pre [] Map.empty s = (Inr (args, kwargs), s1)
       \<and> instances s1 (annotation parameter) = None
       \<and> resolve_parameter C provider parameter s1 = (Inl e, s2)"
  show "case default_value parameter of
          None \<Rightarrow> get_provided_args C provider s = (Inl e, s2)
                \<and> (provider_kind provider \<notin> {COROUTINE, ASYNC_GENERATOR} \<longrightarrow>
                     create_instance C provider s = (Inl e, s2)
                   \<and> TransientContext_get_or_create C provider s = (Inl e, s2)
                   \<and> (dict_get (instances s) (interface provider) = PyNone \<longrightarrow>
                        get_or_create C provider s = (Inl e, s2)))
        | Some d \<Rightarrow>
            get_provided_args C provider s =
              provided_args C (resolve_parameter C) provider post
                (if kind parameter = POSITIONAL_ONLY then args @ [d] else args)
                (if kind parameter = POSITIONAL_ONLY then kwargs else kwargs(name parameter \<mapsto> d))
                s2"
  proof (cases "default_value parameter")
    case None
    have g: "get_provided_args C provider s = (Inl e, s2)"
      unfolding get_provided_args_def
      using provided_args_lookup_error_no_default[of C parameter s1 "resolve_parameter C" provider e s2 pre post s args kwargs]
        assms h None by (elim conjE) simp
    show ?thesis
      using None g create_instance_args_error[OF g]
      by (simp add: TransientContext_get_or_create_def get_or_create_def)
  next
    case (Some d)
    show ?thesis
      unfolding get_provided_args_def
      using provided_args_lookup_error_default[of C parameter s1 "resolve_parameter C" provider e s2 pre post s args kwargs d]
        assms h Some by (elim conjE) simp
  qed
next
  assume h: "provided_args C (aresolve_parameter C) provider pre [] Map.empty s = (Inr (args, kwargs), s1)
       \<and> instances s1 (annotation parameter) = None
       \<and> aresolve_parameter C provider parameter s1 = (Inl e, s2)"
  show "case default_value parameter of
          None \<Rightarrow> aget_provided_args C provider s = (Inl e, s2)
                \<and> acreate_instance C provider s = (Inl e, s2)
                \<and> TransientContext_aget_or_create C provider s = (Inl e, s2)
                \<and> (dict_get (instances s) (interface provider) = PyNone \<longrightarrow>
                     aget_or_create C provider s = (Inl e, s2))
        | Some d \<Rightarrow>
            aget_provided_args C provider s =
              provided_args C (aresolve_parameter C) provider post
                (if kind parameter = POSITIONAL_ONLY then args @ [d] else args)
                (if kind parameter = POSITIONAL_ONLY then kwargs else kwargs(name parameter \<mapsto> d))
                s2"
  proof (cases "default_value parameter")
    case None
    have g: "aget_provided_args C provider s = (Inl e, s2)"
      unfolding aget_provided_args_def
      using provided_args_lookup_error_no_default[of C parameter s1 "aresolve_parameter C" provider e s2 pre post s args kwargs]
        assms h None by (elim conjE) simp
    show ?thesis
      using None g acreate_instance_args_error[OF g]
      by (simp add: TransientContext_aget_or_create_def aget_or_create_def)
  next
    case (Some d)
    show ?thesis
      unfolding aget_provided_args_def
      using provided_args_lookup_error_default[of C parameter s1 "aresolve_parameter C" provider e s2 pre post s args kwargs d]
        assms h Some by (elim conjE) simp
  qed
qed

theorem missing_dependency_default_or_LookupError_witness:
  "isinstance_LookupError (Exc LookupError ''Dep'')
   \<and> get_provided_args empty_container service_provider empty_context
       = (Inl (Exc LookupError ''Dep''), empty_context)
   \<and> get_or_create empty_container service_provider empty_context
       = (Inl (Exc LookupError ''Dep''), empty_context)
   \<and> aget_or_create empty_container service_provider empty_context
       = (Inl (Exc LookupError ''Dep''), empty_context)
   \<and> get_provided_args empty_container service_provider_with_default empty_context
       = (Inr ([], [''dep'' \<mapsto> Obj 9 None None]), empty_context)
   \<and> aget_provided_args empty_container service_provider_with_default empty_context
       = (Inr ([], [''dep'' \<mapsto> Obj 9 None None]), empty_context)"
proof -
  have l: "isinstance_LookupError (Exc LookupError ''Dep'')"
    by (simp add: isinstance_LookupError_def)
  have ov: "override_instances empty_container (annotation dep_parameter) = None"
    "override_instances empty_container (annotation dep_parameter_with_default) = None"
    by (simp_all add: empty_container_def)
  have ps: "parameters service_provider = [] @ dep_parameter # []"
    "parameters service_provider_with_default = [] @ dep_parameter_with_default # []"
    by (simp_all add: service_provider_def service_provider_with_default_def)
  have facts:
    "instances empty_context (annotation dep_parameter) = None"
    "instances empty_context (annotation dep_parameter_with_default) = None"
    "resolve_parameter empty_container service_provider dep_parameter empty_context
       = (Inl (Exc LookupError ''Dep''), empty_context)"
    "aresolve_parameter empty_container service_provider dep_parameter empty_context
       = (Inl (Exc LookupError ''Dep''), empty_context)"
    "resolve_parameter empty_container service_provider_with_default
       dep_parameter_with_default empty_context = (Inl (Exc LookupError ''Dep''), empty_context)"
    "aresolve_parameter empty_container service_provider_with_default
       dep_parameter_with_default empty_context = (Inl (Exc LookupError ''Dep''), empty_context)"
    "default_value dep_parameter = None"
    "default_value dep_parameter_with_default = Some (Obj 9 None None)"
    "kind dep_parameter_with_default \<noteq> POSITIONAL_ONLY"
    "name dep_parameter_with_default = ''dep''"
    "provider_kind service_provider \<notin> {COROUTINE, ASYNC_GENERATOR}"
    "dict_get (instances empty_context) (interface service_provider) = PyNone"
    by (simp_all add: empty_context_def empty_container_def unregistered_def dep_parameter_def
        dep_parameter_with_default_def provider_kind_def service_provider_def dict_get_def)
  have a: "get_provided_args empty_container service_provider empty_context
             = (Inl (Exc LookupError ''Dep''), empty_context)
         \<and> get_or_create empty_container service_provider empty_context
             = (Inl (Exc LookupError ''Dep''), empty_context)
         \<and> aget_or_create empty_container service_provider empty_context
             = (Inl (Exc LookupError ''Dep''), empty_context)"
    using missing_dependency_default_or_LookupError
            [OF ov(1) l ps(1), of empty_context unregistered empty_context "[]" Map.empty
               empty_context empty_context] facts
    by simp
  have b: "get_provided_args empty_container service_provider_with_default empty_context
             = (Inr ([], [''dep'' \<mapsto> Obj 9 None None]), empty_context)
         \<and> aget_provided_args empty_container service_provider_with_default empty_context
             = (Inr ([], [''dep'' \<mapsto> Obj 9 None None]), empty_context)"
    using missing_dependency_default_or_LookupError
            [OF ov(2) l ps(2), of empty_context unregistered empty_context "[]" Map.empty
               empty_context empty_context] facts
    by simp
  from l a b show ?thesis by simp
qed

section \<open>Closing\<close>

lemma exit_callbacks_append:
  "exit_callbacks (xs @ ys) exc su pe log =
     (case exit_callbacks xs exc su pe log of
        (exc', su', pe', log') \<Rightarrow> exit_callbacks ys exc' su' pe' log')"
  by (induction xs arbitrary: exc su pe log) (auto split: exit_outcome.splits)

lemma exit_callbacks_log:
  "snd (snd (snd (exit_callbacks cbs exc su pe log))) = log @ map fst cbs"
  by (induction cbs arbitrary: exc su pe log) (auto split: exit_outcome.splits)

lemma exit_callbacks_quiet:
  assumes "\<forall>c \<in> set cbs. snd c (Some e) = ExitReturned False"
  shows "exit_callbacks cbs (Some e) su pe log = (Some e, su, pe, log @ map fst cbs)"
  using assms by (induction cbs arbitrary: log) auto

lemma exit_callbacks_no_failure:
  assumes "\<forall>c \<in> set cbs. \<exists>b. snd c None = ExitReturned b"
  shows "fst (exit_callbacks cbs None su False log) = None
       \<and> \<not> fst (snd (snd (exit_callbacks cbs None su False log)))"
  using assms by (induction cbs arbitrary: su log) (auto split: if_splits)

lemma ExitStack_exit_log:
  "snd (ExitStack_exit cbs exc log) = log @ rev (map fst cbs)"
  using exit_callbacks_log[of "rev cbs" exc False False log]
  by (auto simp: ExitStack_exit_def rev_map split: prod.splits option.splits)

lemma exit_callbacks_log_shift:
  "exit_callbacks cbs exc su pe (l1 @ l2) =
     (case exit_callbacks cbs exc su pe l2 of (e, s, p, l) \<Rightarrow> (e, s, p, l1 @ l))"
proof (induction cbs arbitrary: exc su pe l2)
  case Nil
  show ?case by simp
next
  case (Cons c cbs)
  obtain r cb where c: "c = (r, cb)" by (cases c) auto
  have ih: "exit_callbacks cbs x y z (l1 @ (l2 @ [r])) =
     (case exit_callbacks cbs x y z (l2 @ [r]) of (e, s, p, l) \<Rightarrow> (e, s, p, l1 @ l))" for x y z
    by (rule Cons.IH)
  show ?case
    using ih by (cases "cb exc") (simp_all add: c)
qed

lemma pending_after_eq:
  "fst (exit_callbacks (rev cbs) None False False log) = pending_after cbs"
  using exit_callbacks_log_shift[of "rev cbs" None False False log "[]"]
  by (simp add: pending_after_def split: prod.splits)

lemma ExitStack_exit_raises:
  assumes "cbs = pre @ (r, cb) # post"
    and "cb (fst (exit_callbacks (rev post) exc False False log)) = ExitRaised e"
    and "\<forall>c \<in> set pre. snd c (Some e) = ExitReturned False"
  shows "fst (ExitStack_exit cbs exc log) = Inl e"
proof -
  obtain exc' su' pe' log' where
    p: "exit_callbacks (rev post) exc False False log = (exc', su', pe', log')"
    by (cases "exit_callbacks (rev post) exc False False log") auto
  have q: "\<forall>c \<in> set (rev pre). snd c (Some e) = ExitReturned False"
    using assms(3) by simp
  have "exit_callbacks (rev cbs) exc False False log =
          (Some e, su', True, (log' @ [r]) @ map fst (rev pre))"
    using assms(1,2) p exit_callbacks_quiet[OF q]
    by (simp add: exit_callbacks_append)
  then show ?thesis by (simp add: ExitStack_exit_def)
qed

lemma ExitStack_exit_no_failure:
  assumes "\<forall>c \<in> set cbs. \<exists>b. snd c None = ExitReturned b"
  shows "fst (ExitStack_exit cbs None log) = Inr False"
proof -
  have "\<forall>c \<in> set (rev cbs). \<exists>b. snd c None = ExitReturned b" using assms by simp
  from exit_callbacks_no_failure[OF this, of False log]
  show ?thesis
    by (auto simp: ExitStack_exit_def split: prod.splits option.splits)
qed

lemma snd_exit_context:
  "snd (exit_context exc s) = s\<lparr>stack := [], released := released s @ rev (map fst (stack s))\<rparr>"
  using ExitStack_exit_log[of "stack s" exc "released s"]
  by (auto simp: exit_context_def split: prod.splits)

lemma snd_close:
  "snd (close s) = s\<lparr>stack := [], released := released s @ rev (map fst (stack s))\<rparr>"
  using snd_exit_context[of None s]
  by (auto simp: close_def split: prod.splits sum.splits)

lemma fst_close:
  "fst (close s) = (case fst (ExitStack_exit (stack s) None (released s)) of
                      Inl e \<Rightarrow> Inl e | Inr b \<Rightarrow> Inr ())"
  by (auto simp: close_def exit_context_def split: prod.splits sum.splits)

lemma close_empty_stack:
  assumes "stack t = []"
  shows "close t = (Inr (), t)"
  using assms by (simp add: close_def exit_context_def ExitStack_exit_def)

text \<open>
  C5, as amended: closing releases every resource on the cleanup stack once, in strict
  reverse of the order of acquisition, whether or not releases fail, and leaves the
  stack empty. After all releases, the failure that is raised is that of the last
  release that failed, when no later release suppresses it (every release after it
  returns false on it): it is the first failure only if no later release fails. A
  release fails when its exit callback raises on what is pending at the time it is
  called, which is what the releases before it (of the resources acquired after it)
  have left pending. When no release fails, close returns normally.
\<close>

theorem close_releases_all_in_reverse_order:
  "snd (close s) = s\<lparr>stack := [], released := released s @ rev (map fst (stack s))\<rparr>
   \<and> (stack s = pre @ (r, cb) # post \<and> cb (pending_after post) = ExitRaised e
        \<and> (\<forall>c \<in> set pre. snd c (Some e) = ExitReturned False)
      \<longrightarrow> fst (close s) = Inl e)
   \<and> ((\<forall>c \<in> set (stack s). \<exists>b. snd c None = ExitReturned b) \<longrightarrow> fst (close s) = Inr ())"
proof (intro conjI impI)
  show "snd (close s) = s\<lparr>stack := [], released := released s @ rev (map fst (stack s))\<rparr>"
    by (rule snd_close)
next
  assume "stack s = pre @ (r, cb) # post \<and> cb (pending_after post) = ExitRaised e
        \<and> (\<forall>c \<in> set pre. snd c (Some e) = ExitReturned False)"
  then have "fst (ExitStack_exit (stack s) None (released s)) = Inl e"
    using ExitStack_exit_raises[of "stack s" pre r cb post None "released s" e]
      pending_after_eq[of post "released s"] by simp
  then show "fst (close s) = Inl e" by (simp add: fst_close)
next
  assume "\<forall>c \<in> set (stack s). \<exists>b. snd c None = ExitReturned b"
  then have "fst (ExitStack_exit (stack s) None (released s)) = Inr False"
    by (rule ExitStack_exit_no_failure)
  then show "fst (close s) = Inr ()" by (simp add: fst_close)
qed

theorem close_releases_all_in_reverse_order_witness:
  "stack context_middle_failing = [(1, release_ok)] @ (2, release_fails ''B'') # [(3, release_ok)]
   \<and> released (snd (close context_middle_failing)) = [3, 2, 1]
   \<and> stack (snd (close context_middle_failing)) = []
   \<and> fst (close context_middle_failing) = Inl (Exc OtherError ''B'')
   \<and> released (snd (close context_all_ok)) = [2, 1]
   \<and> fst (close context_all_ok) = Inr ()
   \<and> stack context_generator_cleanup_failing
       = [(1, release_ok)] @ (2, release_fails_if_clean ''B'') # []
   \<and> released (snd (close context_generator_cleanup_failing)) = [2, 1]
   \<and> fst (close context_generator_cleanup_failing) = Inl (Exc OtherError ''B'')"
proof -
  have st: "stack context_middle_failing
              = [(1, release_ok)] @ (2, release_fails ''B'') # [(3, release_ok)]"
    by (simp add: context_middle_failing_def empty_context_def)
  have f: "release_fails ''B'' (pending_after [(3, release_ok)]) = ExitRaised (Exc OtherError ''B'')"
    by (simp add: release_fails_def)
  have sg: "stack context_generator_cleanup_failing
              = [(1, release_ok)] @ (2, release_fails_if_clean ''B'') # []"
    by (simp add: context_generator_cleanup_failing_def empty_context_def)
  have fg: "release_fails_if_clean ''B'' (pending_after []) = ExitRaised (Exc OtherError ''B'')"
    by (simp add: release_fails_if_clean_def pending_after_def)
  have q: "\<forall>c \<in> set [(1::nat, release_ok)]. snd c (Some (Exc OtherError ''B'')) = ExitReturned False"
    by (simp add: release_ok_def)
  have ok: "\<forall>c \<in> set (stack context_all_ok). \<exists>b. snd c None = ExitReturned b"
    by (auto simp add: context_all_ok_def empty_context_def release_ok_def)
  have a: "released (snd (close context_middle_failing)) = [3, 2, 1]
         \<and> stack (snd (close context_middle_failing)) = []
         \<and> fst (close context_middle_failing) = Inl (Exc OtherError ''B'')"
    using close_releases_all_in_reverse_order
            [of context_middle_failing "[(1, release_ok)]" 2 "release_fails ''B''"
               "[(3, release_ok)]" "Exc OtherError ''B''"] st f q
    by (simp add: context_middle_failing_def empty_context_def)
  have b: "released (snd (close context_all_ok)) = [2, 1] \<and> fst (close context_all_ok) = Inr ()"
    using close_releases_all_in_reverse_order
            [of context_all_ok "[]" 0 release_ok "[]" "Exc OtherError ''B''"] ok
    by (simp add: context_all_ok_def empty_context_def)
  have g: "released (snd (close context_generator_cleanup_failing)) = [2, 1]
         \<and> fst (close context_generator_cleanup_failing) = Inl (Exc OtherError ''B'')"
    using close_releases_all_in_reverse_order
            [of context_generator_cleanup_failing "[(1, release_ok)]" 2
               "release_fails_if_clean ''B''" "[]" "Exc OtherError ''B''"] sg fg q
    by (simp add: context_generator_cleanup_failing_def empty_context_def)
  from st a b sg g show ?thesis by simp
qed

text \<open>
  C5 as stated fails: with A acquired before B and both releases failing, B is
  released first, so its failure is the first one, and close raises the failure of A.
\<close>

theorem close_propagates_last_failure_not_first:
  "released (snd (close context_A_then_B_failing)) = [2, 1]
   \<and> fst (close context_A_then_B_failing) = Inl (Exc OtherError ''A'')
   \<and> fst (close context_A_then_B_failing) \<noteq> Inl (Exc OtherError ''B'')"
  by (simp add: close_def exit_context_def ExitStack_exit_def context_A_then_B_failing_def
      empty_context_def release_fails_def)

text \<open>
  C8: a second close releases nothing. After one close the stack is empty, so any
  further close returns normally and leaves the state, with its record of releases,
  as the first close left it.
\<close>

theorem second_close_releases_nothing:
  "close (snd (close s)) = (Inr (), snd (close s))
   \<and> ((\<lambda>t. snd (close t)) ^^ Suc n) s = snd (close s)"
proof -
  have empty: "close t = (Inr (), t)" if "stack t = []" for t
    using that by (simp add: close_def exit_context_def ExitStack_exit_def)
  have one: "close (snd (close t)) = (Inr (), snd (close t))" for t
    by (rule empty) (simp add: snd_close)
  have "((\<lambda>t. snd (close t)) ^^ Suc n) s = snd (close s)"
  proof (induction n)
    case 0
    show ?case by simp
  next
    case (Suc n)
    have "((\<lambda>t. snd (close t)) ^^ Suc (Suc n)) s = snd (close (((\<lambda>t. snd (close t)) ^^ Suc n) s))"
      by simp
    also have "\<dots> = snd (close (snd (close s)))" using Suc by simp
    also have "\<dots> = snd (close s)" using one[of s] by simp
    finally show ?case .
  qed
  with one show ?thesis by blast
qed

theorem second_close_releases_nothing_witness:
  "released (snd (close context_A_then_B_failing)) = [2, 1]
   \<and> close (snd (close context_A_then_B_failing)) = (Inr (), snd (close context_A_then_B_failing))
   \<and> released (((\<lambda>t. snd (close t)) ^^ Suc 2) context_A_then_B_failing) = [2, 1]"
proof -
  have r: "released (snd (close context_A_then_B_failing)) = [2, 1]"
    by (simp add: snd_close context_A_then_B_failing_def empty_context_def)
  note w = second_close_releases_nothing [of context_A_then_B_failing 2]
  from w have "((\<lambda>t. snd (close t)) ^^ Suc 2) context_A_then_B_failing
                 = snd (close context_A_then_B_failing)"
    by (rule conjunct2)
  with r have "released (((\<lambda>t. snd (close t)) ^^ Suc 2) context_A_then_B_failing) = [2, 1]"
    by (simp only:)
  with r w show ?thesis by blast
qed

text \<open>
  What the asynchronous close does when \<^verbatim>\<open>anyio\<close> is there and no synchronous release
  raises: the synchronous stack first, then the asynchronous one, each in reverse.
\<close>

lemma aclose_releases_both_stacks:
  assumes "anyio_installed s"
    and "\<forall>c \<in> set (stack s). \<exists>b. snd c None = ExitReturned b"
  shows "snd (aclose s) =
           s\<lparr>stack := [], async_stack := [],
             released := released s @ rev (map fst (stack s)) @ rev (map fst (async_stack s))\<rparr>"
proof -
  have "fst (ExitStack_exit (stack s) None (released s)) = Inr False"
    using assms(2) by (rule ExitStack_exit_no_failure)
  moreover have "snd (ExitStack_exit (stack s) None (released s))
                   = released s @ rev (map fst (stack s))"
    by (rule ExitStack_exit_log)
  ultimately have e: "ExitStack_exit (stack s) None (released s)
                        = (Inr False, released s @ rev (map fst (stack s)))"
    by (simp add: prod_eq_iff)
  obtain r where a: "ExitStack_exit (async_stack s) None (released s @ rev (map fst (stack s)))
      = (r, released s @ rev (map fst (stack s)) @ rev (map fst (async_stack s)))"
    using ExitStack_exit_log[of "async_stack s" None "released s @ rev (map fst (stack s))"]
    by (cases "ExitStack_exit (async_stack s) None (released s @ rev (map fst (stack s)))") auto
  show ?thesis
    using assms(1) e a
    by (cases r)
       (simp_all add: aclose_def aexit_context_def run_async_def exit_context_def
          async_stack_aexit_def)
qed

text \<open>
  C6 does not hold of the code: when a synchronous release raises, \<^verbatim>\<open>__aexit__\<close>
  leaves with that exception before it reaches the asynchronous stack. Here resource 1
  is released and fails, and the asynchronous resource 2 is still on its stack, never
  released. The same happens in \<^verbatim>\<open>__aexit__\<close> when the synchronous exit suppresses
  the exception it was given: \<^verbatim>\<open>or\<close> does not evaluate its right operand.
\<close>

theorem aclose_skips_async_stack_when_sync_release_fails:
  "fst (aclose context_sync_failing_async_open) = Inl (Exc OtherError ''A'')
   \<and> released (snd (aclose context_sync_failing_async_open)) = [1]
   \<and> map fst (async_stack (snd (aclose context_sync_failing_async_open))) = [2]
   \<and> fst (aexit_context (Some (Exc OtherError ''body'')) context_sync_suppressing_async_open)
       = Inr True
   \<and> released (snd (aexit_context (Some (Exc OtherError ''body''))
         context_sync_suppressing_async_open)) = [1]
   \<and> map fst (async_stack (snd (aexit_context (Some (Exc OtherError ''body''))
         context_sync_suppressing_async_open))) = [2]"
  by (simp add: aclose_def aexit_context_def run_async_def exit_context_def ExitStack_exit_def
      context_sync_failing_async_open_def context_sync_suppressing_async_open_def
      empty_context_def release_fails_def release_ok_def release_suppresses_def)

section \<open>get_or_create\<close>

text \<open>
  What \<^verbatim>\<open>get_or_create\<close> and \<^verbatim>\<open>aget_or_create\<close> do: a cached instance other than
  \<^verbatim>\<open>None\<close> is returned with \<^verbatim>\<open>created = False\<close> and the state is unchanged;
  otherwise the instance is created, stored under the interface and returned with
  \<^verbatim>\<open>created = True\<close>.
\<close>

lemma get_or_create_cached:
  assumes "instances s (interface provider) = Some v" and "v \<noteq> PyNone"
  shows "get_or_create C provider s = (Inr (v, False), s)"
    and "aget_or_create C provider s = (Inr (v, False), s)"
  using assms by (simp_all add: get_or_create_def aget_or_create_def dict_get_def)

lemma get_or_create_created:
  assumes "dict_get (instances s) (interface provider) = PyNone"
    and "create_instance C provider s = (Inr v, s')"
  shows "get_or_create C provider s =
           (Inr (v, True), s'\<lparr>instances := (instances s')(interface provider \<mapsto> v)\<rparr>)"
  using assms by (simp add: get_or_create_def)

lemma aget_or_create_created:
  assumes "dict_get (instances s) (interface provider) = PyNone"
    and "acreate_instance C provider s = (Inr v, s')"
  shows "aget_or_create C provider s =
           (Inr (v, True), s'\<lparr>instances := (instances s')(interface provider \<mapsto> v)\<rparr>)"
  using assms by (simp add: aget_or_create_def)

text \<open>
  C1 does not hold of the code when the cached instance is \<^verbatim>\<open>None\<close>: the test
  \<^verbatim>\<open>instance is None\<close> on \<^verbatim>\<open>self._instances.get(...)\<close> takes a cached \<^verbatim>\<open>None\<close>
  for a missing key. Resolving the event once caches \<^verbatim>\<open>None\<close> for it (\<^verbatim>\<open>has\<close>
  is true); resolving it again runs the factory a second time, registers a second
  cleanup and returns \<^verbatim>\<open>created = True\<close>.
\<close>

theorem get_or_create_creates_again_when_None_is_cached:
  "get_or_create empty_container event_provider empty_context
     = (Inr (PyNone, True), context_after_event)
   \<and> has (interface event_provider) context_after_event
   \<and> fst (get_or_create empty_container event_provider context_after_event) = Inr (PyNone, True)
   \<and> calls (snd (get_or_create empty_container event_provider context_after_event))
       = [''Event'', ''Event'']
   \<and> map fst (stack (snd (get_or_create empty_container event_provider context_after_event)))
       = [0, 1]
   \<and> fst (aget_or_create empty_container event_provider context_after_event) = Inr (PyNone, True)
   \<and> calls (snd (aget_or_create empty_container event_provider context_after_event))
       = [''Event'', ''Event'']"
  by (simp add: get_or_create_def aget_or_create_def create_instance_def acreate_instance_def
      get_provided_args_def aget_provided_args_def invoke_def enter_context_def run_async_def
      dict_get_def has_def event_provider_def empty_context_def context_after_event_def)

section \<open>Two callers racing on one interface\<close>

lemma get_or_create_in_two_steps:
  "get_or_create C provider s = after_read C provider (cache_read provider s) s"
  by (simp add: get_or_create_def after_read_def cache_read_def Let_def)

lemma after_read_miss:
  assumes "create_instance C provider s = (Inr v, s')"
  shows "after_read C provider PyNone s =
           (Inr (v, True), s'\<lparr>instances := (instances s')(interface provider \<mapsto> v)\<rparr>)"
  using assms by (simp add: after_read_def)

lemma cache_read_stored:
  "cache_read provider (s\<lparr>instances := (instances s)(interface provider \<mapsto> v)\<rparr>) = v"
  by (simp add: cache_read_def dict_get_def)

text \<open>
  C9, as amended. The source has no lock and no in-flight marker:
  \<^verbatim>\<open>get_or_create\<close> is the cache read followed by create-and-store. Two callers
  resolve the same interface, which the cache does not hold. When the second caller
  reads the cache after the first has stored an instance (other than \<^verbatim>\<open>None\<close>),
  exactly one creation occurs and both callers get that instance. When both callers
  read the cache before either stores, each of them creates: the factory is invoked
  twice, each caller gets the instance of its own creation with \<^verbatim>\<open>created = True\<close>,
  and the cache ends with the instance stored last.
\<close>

theorem racing_callers_create_once_only_without_interleaving:
  assumes "cache_read provider s = PyNone"
    and "create_instance C provider s = (Inr v, s1)"
    and "c1 \<noteq> c2"
  shows
   "get_or_create C provider s = after_read C provider (cache_read provider s) s
  \<and> (v \<noteq> PyNone \<longrightarrow>
       run_schedule C provider [Read c1, Finish c1, Read c2, Finish c2] s =
         \<lparr>read_of = [c1 \<mapsto> PyNone, c2 \<mapsto> v],
          result_of = [c1 \<mapsto> Inr (v, True), c2 \<mapsto> Inr (v, False)],
          shared = s1\<lparr>instances := (instances s1)(interface provider \<mapsto> v)\<rparr>\<rparr>)
  \<and> (create_instance C provider (s1\<lparr>instances := (instances s1)(interface provider \<mapsto> v)\<rparr>)
        = (Inr v', s2) \<longrightarrow>
       run_schedule C provider [Read c1, Read c2, Finish c1, Finish c2] s =
         \<lparr>read_of = [c1 \<mapsto> PyNone, c2 \<mapsto> PyNone],
          result_of = [c1 \<mapsto> Inr (v, True), c2 \<mapsto> Inr (v', True)],
          shared = s2\<lparr>instances := (instances s2)(interface provider \<mapsto> v')\<rparr>\<rparr>
     \<and> run_schedule C provider [Read c1, Read c2, Finish c2, Finish c1] s =
         \<lparr>read_of = [c1 \<mapsto> PyNone, c2 \<mapsto> PyNone],
          result_of = [c2 \<mapsto> Inr (v, True), c1 \<mapsto> Inr (v', True)],
          shared = s2\<lparr>instances := (instances s2)(interface provider \<mapsto> v')\<rparr>\<rparr>)"
proof (intro conjI impI)
  show "get_or_create C provider s = after_read C provider (cache_read provider s) s"
    by (rule get_or_create_in_two_steps)
next
  assume nn: "v \<noteq> PyNone"
  have hit: "after_read C provider v t = (Inr (v, False), t)" for t
    using nn by (simp add: after_read_def)
  show "run_schedule C provider [Read c1, Finish c1, Read c2, Finish c2] s =
         \<lparr>read_of = [c1 \<mapsto> PyNone, c2 \<mapsto> v],
          result_of = [c1 \<mapsto> Inr (v, True), c2 \<mapsto> Inr (v, False)],
          shared = s1\<lparr>instances := (instances s1)(interface provider \<mapsto> v)\<rparr>\<rparr>"
    using assms(1,3) after_read_miss[OF assms(2)] hit cache_read_stored[of provider s1 v]
    by (simp add: run_schedule_def)
next
  assume c2: "create_instance C provider (s1\<lparr>instances := (instances s1)(interface provider \<mapsto> v)\<rparr>)
        = (Inr v', s2)"
  show "run_schedule C provider [Read c1, Read c2, Finish c1, Finish c2] s =
         \<lparr>read_of = [c1 \<mapsto> PyNone, c2 \<mapsto> PyNone],
          result_of = [c1 \<mapsto> Inr (v, True), c2 \<mapsto> Inr (v', True)],
          shared = s2\<lparr>instances := (instances s2)(interface provider \<mapsto> v')\<rparr>\<rparr>"
    using assms(1,3) after_read_miss[OF assms(2)] after_read_miss[OF c2]
    by (simp add: run_schedule_def)
next
  assume c2: "create_instance C provider (s1\<lparr>instances := (instances s1)(interface provider \<mapsto> v)\<rparr>)
        = (Inr v', s2)"
  show "run_schedule C provider [Read c1, Read c2, Finish c2, Finish c1] s =
         \<lparr>read_of = [c1 \<mapsto> PyNone, c2 \<mapsto> PyNone],
          result_of = [c2 \<mapsto> Inr (v, True), c1 \<mapsto> Inr (v', True)],
          shared = s2\<lparr>instances := (instances s2)(interface provider \<mapsto> v')\<rparr>\<rparr>"
    using assms(1,3) after_read_miss[OF assms(2)] after_read_miss[OF c2]
    by (simp add: run_schedule_def)
qed

theorem racing_callers_create_once_only_without_interleaving_witness:
  "cache_read fresh_provider empty_context = PyNone
   \<and> Caller_A \<noteq> Caller_B
   \<and> create_instance empty_container fresh_provider empty_context
       = (Inr (Obj 0 None None), empty_context\<lparr>calls := [''Service'']\<rparr>)
   \<and> result_of (run_schedule empty_container fresh_provider
         [Read Caller_A, Finish Caller_A, Read Caller_B, Finish Caller_B] empty_context)
       = [Caller_A \<mapsto> Inr (Obj 0 None None, True), Caller_B \<mapsto> Inr (Obj 0 None None, False)]
   \<and> calls (shared (run_schedule empty_container fresh_provider
         [Read Caller_A, Finish Caller_A, Read Caller_B, Finish Caller_B] empty_context))
       = [''Service'']
   \<and> result_of (run_schedule empty_container fresh_provider
         [Read Caller_A, Read Caller_B, Finish Caller_B, Finish Caller_A] empty_context)
       = [Caller_B \<mapsto> Inr (Obj 0 None None, True), Caller_A \<mapsto> Inr (Obj 1 None None, True)]
   \<and> calls (shared (run_schedule empty_container fresh_provider
         [Read Caller_A, Read Caller_B, Finish Caller_B, Finish Caller_A] empty_context))
       = [''Service'', ''Service'']"
proof -
  have r: "cache_read fresh_provider empty_context = PyNone"
    by (simp add: cache_read_def dict_get_def empty_context_def)
  have c1: "create_instance empty_container fresh_provider empty_context
       = (Inr (Obj 0 None None), empty_context\<lparr>calls := [''Service'']\<rparr>)"
    by (simp add: create_instance_def get_provided_args_def invoke_def fresh_provider_def
        empty_context_def)
  have c2: "create_instance empty_container fresh_provider
        ((empty_context\<lparr>calls := [''Service'']\<rparr>)
           \<lparr>instances := (instances (empty_context\<lparr>calls := [''Service'']\<rparr>))
              (interface fresh_provider \<mapsto> Obj 0 None None)\<rparr>)
       = (Inr (Obj 1 None None),
          empty_context\<lparr>calls := [''Service'', ''Service''],
            instances := [''Service'' \<mapsto> Obj 0 None None]\<rparr>)"
    by (simp add: create_instance_def get_provided_args_def invoke_def fresh_provider_def
        empty_context_def)
  have d: "Caller_A \<noteq> Caller_B" by simp
  have n: "Obj 0 None None \<noteq> PyNone" by simp
  note w = racing_callers_create_once_only_without_interleaving
             [OF r c1 d, of "Obj 1 None None"
                "empty_context\<lparr>calls := [''Service'', ''Service''],
                   instances := [''Service'' \<mapsto> Obj 0 None None]\<rparr>"]
  have a: "run_schedule empty_container fresh_provider
         [Read Caller_A, Finish Caller_A, Read Caller_B, Finish Caller_B] empty_context =
         \<lparr>read_of = [Caller_A \<mapsto> PyNone, Caller_B \<mapsto> Obj 0 None None],
          result_of = [Caller_A \<mapsto> Inr (Obj 0 None None, True),
                       Caller_B \<mapsto> Inr (Obj 0 None None, False)],
          shared = (empty_context\<lparr>calls := [''Service'']\<rparr>)
            \<lparr>instances := (instances (empty_context\<lparr>calls := [''Service'']\<rparr>))
               (interface fresh_provider \<mapsto> Obj 0 None None)\<rparr>\<rparr>"
    using w n by blast
  have b: "run_schedule empty_container fresh_provider
         [Read Caller_A, Read Caller_B, Finish Caller_B, Finish Caller_A] empty_context =
         \<lparr>read_of = [Caller_A \<mapsto> PyNone, Caller_B \<mapsto> PyNone],
          result_of = [Caller_B \<mapsto> Inr (Obj 0 None None, True),
                       Caller_A \<mapsto> Inr (Obj 1 None None, True)],
          shared = (empty_context\<lparr>calls := [''Service'', ''Service''],
                      instances := [''Service'' \<mapsto> Obj 0 None None]\<rparr>)
            \<lparr>instances := (instances (empty_context\<lparr>calls := [''Service'', ''Service''],
                      instances := [''Service'' \<mapsto> Obj 0 None None]\<rparr>))
               (interface fresh_provider \<mapsto> Obj 1 None None)\<rparr>\<rparr>"
    using w c2 by blast
  have ra: "result_of (run_schedule empty_container fresh_provider
         [Read Caller_A, Finish Caller_A, Read Caller_B, Finish Caller_B] empty_context)
       = [Caller_A \<mapsto> Inr (Obj 0 None None, True), Caller_B \<mapsto> Inr (Obj 0 None None, False)]"
    by (simp only: a racing.simps)
  have ca: "calls (shared (run_schedule empty_container fresh_provider
         [Read Caller_A, Finish Caller_A, Read Caller_B, Finish Caller_B] empty_context))
       = [''Service'']"
    by (simp add: a)
  have rb: "result_of (run_schedule empty_container fresh_provider
         [Read Caller_A, Read Caller_B, Finish Caller_B, Finish Caller_A] empty_context)
       = [Caller_B \<mapsto> Inr (Obj 0 None None, True), Caller_A \<mapsto> Inr (Obj 1 None None, True)]"
    by (simp only: b racing.simps)
  have cb: "calls (shared (run_schedule empty_container fresh_provider
         [Read Caller_A, Read Caller_B, Finish Caller_B, Finish Caller_A] empty_context))
       = [''Service'', ''Service'']"
    by (simp add: b)
  from r d c1 ra ca rb cb show ?thesis by blast
qed

text \<open>
  C9 as stated fails: with the schedule read, read, create and store, create and store,
  the factory is invoked twice and the two callers get different instances.
\<close>

theorem racing_callers_both_create:
  "cache_read fresh_provider empty_context = PyNone
   \<and> result_of (run_schedule empty_container fresh_provider
         [Read Caller_A, Read Caller_B, Finish Caller_A, Finish Caller_B] empty_context)
       = [Caller_A \<mapsto> Inr (Obj 0 None None, True), Caller_B \<mapsto> Inr (Obj 1 None None, True)]
   \<and> calls (shared (run_schedule empty_container fresh_provider
         [Read Caller_A, Read Caller_B, Finish Caller_A, Finish Caller_B] empty_context))
       = [''Service'', ''Service'']
   \<and> Obj 0 None None \<noteq> Obj 1 None None"
  by (simp add: run_schedule_def cache_read_def after_read_def dict_get_def create_instance_def
      get_provided_args_def invoke_def fresh_provider_def empty_context_def)

section \<open>The transient context\<close>

lemma provided_instance_calls:
  assumes "keeps_call_log resolve"
  shows "length (calls s) \<le> length (calls (snd (provided_instance C resolve provider parameter s)))"
proof -
  have "length (calls s) \<le> length (calls (snd (resolve provider parameter s)))"
    using assms by (simp add: keeps_call_log_def)
  then show ?thesis
    by (auto simp: provided_instance_def split: option.splits prod.splits sum.splits)
qed

lemma provided_args_calls:
  assumes "keeps_call_log resolve"
  shows "length (calls s) \<le> length (calls (snd (provided_args C resolve provider ps args kwargs s)))"
proof (induction ps arbitrary: args kwargs s)
  case Nil
  show ?case by simp
next
  case (Cons parameter ps)
  obtain r s' where r: "provided_instance C resolve provider parameter s = (r, s')"
    by (cases "provided_instance C resolve provider parameter s") auto
  have le: "length (calls s) \<le> length (calls s')"
    using provided_instance_calls[OF assms, of s C provider parameter] r by simp
  show ?case
  proof (cases r)
    case (Inl e)
    with r le show ?thesis by simp
  next
    case (Inr inst)
    have "length (calls s') \<le> length (calls (snd (provided_args C resolve provider ps a k s')))" for a k
      by (rule Cons.IH)
    with r Inr le show ?thesis
      by (auto intro: order_trans)
  qed
qed

lemma provided_instance_instances:
  assumes "keeps_instances resolve"
  shows "instances (snd (provided_instance C resolve provider parameter s)) = instances s"
proof -
  have "instances (snd (resolve provider parameter s)) = instances s"
    using assms by (simp add: keeps_instances_def)
  then show ?thesis
    by (auto simp: provided_instance_def split: option.splits prod.splits sum.splits)
qed

lemma provided_args_instances:
  assumes "keeps_instances resolve"
  shows "instances (snd (provided_args C resolve provider ps args kwargs s)) = instances s"
proof (induction ps arbitrary: args kwargs s)
  case Nil
  show ?case by simp
next
  case (Cons parameter ps)
  obtain r s' where r: "provided_instance C resolve provider parameter s = (r, s')"
    by (cases "provided_instance C resolve provider parameter s") auto
  have eq: "instances s' = instances s"
    using provided_instance_instances[OF assms, of C provider parameter s] r by simp
  show ?case
  proof (cases r)
    case (Inl e)
    with r eq show ?thesis by simp
  next
    case (Inr inst)
    have "instances (snd (provided_args C resolve provider ps a k s')) = instances s'" for a k
      by (rule Cons.IH)
    with r Inr eq show ?thesis by auto
  qed
qed

lemma create_instance_instances:
  assumes "keeps_instances (resolve_parameter C)"
  shows "instances (snd (create_instance C provider s)) = instances s"
proof -
  have a: "instances (snd (get_provided_args C provider s)) = instances s"
    unfolding get_provided_args_def by (rule provided_args_instances[OF assms])
  show ?thesis
    using a
    by (cases "call provider")
       (auto simp: create_instance_def invoke_def enter_context_def
             split: prod.splits sum.splits option.splits)
qed

lemma acreate_instance_instances:
  assumes "keeps_instances (aresolve_parameter C)"
  shows "instances (snd (acreate_instance C provider s)) = instances s"
proof -
  have a: "instances (snd (aget_provided_args C provider s)) = instances s"
    unfolding aget_provided_args_def by (rule provided_args_instances[OF assms])
  show ?thesis
    using a
    by (cases "call provider")
       (auto simp: acreate_instance_def invoke_def enter_context_def enter_async_context_def
             run_async_def split: prod.splits sum.splits option.splits if_splits)
qed

lemma enter_context_Inr:
  assumes "enter_context cm s = (Inr v, s')"
  shows "cm_enter cm = Inr v \<and> calls s' = calls s"
  using assms by (cases "cm_enter cm") (auto simp: enter_context_def)

lemma enter_async_context_Inr:
  assumes "enter_async_context cm s = (Inr v, s')"
  shows "cm_enter cm = Inr v \<and> calls s' = calls s"
  using assms by (cases "cm_enter cm") (auto simp: enter_async_context_def)

lemma returned_instance_calls:
  assumes "(case m of None \<Rightarrow> (Inr inst, s2)
            | Some cm \<Rightarrow> (case enter_context cm s2 of
                 (Inl e, s3) \<Rightarrow> (Inl e, s3) | (Inr u, s3) \<Rightarrow> (Inr inst, s3))) = (Inr v, s')"
  shows "v = inst \<and> calls s' = calls s2"
proof (cases m)
  case None
  with assms show ?thesis by simp
next
  case (Some cm)
  obtain r s3 where e: "enter_context cm s2 = (r, s3)" by (cases "enter_context cm s2") auto
  show ?thesis
  proof (cases r)
    case (Inl x)
    with assms Some e show ?thesis by simp
  next
    case (Inr u)
    with assms Some e enter_context_Inr[of cm s2 u s3] show ?thesis by simp
  qed
qed

lemma areturned_instance_calls:
  assumes "(case m of None \<Rightarrow> (Inr inst, s2)
            | Some cm \<Rightarrow> (case enter_async_context cm s2 of
                 (Inl e, s3) \<Rightarrow> (Inl e, s3) | (Inr u, s3) \<Rightarrow> (Inr inst, s3))) = (Inr v, s')"
  shows "v = inst \<and> calls s' = calls s2"
proof (cases m)
  case None
  with assms show ?thesis by simp
next
  case (Some cm)
  obtain r s3 where e: "enter_async_context cm s2 = (r, s3)"
    by (cases "enter_async_context cm s2") auto
  show ?thesis
  proof (cases r)
    case (Inl x)
    with assms Some e show ?thesis by simp
  next
    case (Inr u)
    with assms Some e enter_async_context_Inr[of cm s2 u s3] show ?thesis by simp
  qed
qed

lemma create_instance_Inr:
  assumes "create_instance C provider s = (Inr v, s')"
  shows "\<exists>args kwargs s1. get_provided_args C provider s = (Inr (args, kwargs), s1)
           \<and> produced (call provider) args kwargs (length (calls s1)) = Some v
           \<and> calls s' = calls s1 @ [interface provider]"
proof -
  obtain r s1 where g: "get_provided_args C provider s = (r, s1)"
    by (cases "get_provided_args C provider s") auto
  show ?thesis
  proof (cases "call provider")
    case (Coroutine f)
    with assms show ?thesis by (simp add: create_instance_def)
  next
    case (AsyncGenerator f)
    with assms show ?thesis by (simp add: create_instance_def)
  next
    case (Generator f)
    show ?thesis
    proof (cases r)
      case (Inl e)
      with assms g Generator show ?thesis by (simp add: create_instance_def)
    next
      case (Inr ak)
      obtain args kwargs where ak: "ak = (args, kwargs)" by (cases ak) auto
      have "enter_context (f args kwargs (length (calls s1)))
              (s1\<lparr>calls := calls s1 @ [interface provider]\<rparr>) = (Inr v, s')"
        using assms g Generator Inr ak by (simp add: create_instance_def invoke_def)
      from enter_context_Inr[OF this]
      show ?thesis using g Generator Inr ak by (simp add: produced_def)
    qed
  next
    case (Plain f)
    show ?thesis
    proof (cases r)
      case (Inl e)
      with assms g Plain show ?thesis by (simp add: create_instance_def)
    next
      case (Inr ak)
      obtain args kwargs where ak: "ak = (args, kwargs)" by (cases ak) auto
      show ?thesis
      proof (cases "f args kwargs (length (calls s1))")
        case (Inl e)
        with assms g Plain Inr ak show ?thesis by (simp add: create_instance_def invoke_def)
      next
        case fr: (Inr inst)
        have "(case AbstractContextManager inst of
                 None \<Rightarrow> (Inr inst, s1\<lparr>calls := calls s1 @ [interface provider]\<rparr>)
               | Some cm \<Rightarrow>
                   (case enter_context cm (s1\<lparr>calls := calls s1 @ [interface provider]\<rparr>) of
                      (Inl e, s3) \<Rightarrow> (Inl e, s3) | (Inr u, s3) \<Rightarrow> (Inr inst, s3))) = (Inr v, s')"
          using assms g Plain Inr ak fr by (simp add: create_instance_def invoke_def)
        from returned_instance_calls[OF this]
        show ?thesis using g Plain Inr ak fr by (simp add: produced_def)
      qed
    qed
  qed
qed

lemma acreate_instance_Inr:
  assumes "acreate_instance C provider s = (Inr v, s')"
  shows "\<exists>args kwargs s1. aget_provided_args C provider s = (Inr (args, kwargs), s1)
           \<and> produced (call provider) args kwargs (length (calls s1)) = Some v
           \<and> calls s' = calls s1 @ [interface provider]"
proof -
  obtain r s1 where g: "aget_provided_args C provider s = (r, s1)"
    by (cases "aget_provided_args C provider s") auto
  show ?thesis
  proof (cases r)
    case (Inl e)
    with assms g show ?thesis by (simp add: acreate_instance_def)
  next
    case (Inr ak)
    obtain args kwargs where ak: "ak = (args, kwargs)" by (cases ak) auto
    show ?thesis
    proof (cases "call provider")
      case (AsyncGenerator f)
      have "enter_async_context (f args kwargs (length (calls s1)))
              (s1\<lparr>calls := calls s1 @ [interface provider]\<rparr>) = (Inr v, s')"
        using assms g AsyncGenerator Inr ak by (simp add: acreate_instance_def invoke_def)
      from enter_async_context_Inr[OF this]
      show ?thesis using g AsyncGenerator Inr ak by (simp add: produced_def)
    next
      case (Generator f)
      have a: "anyio_installed s1"
        using assms g Generator Inr ak
        by (cases "anyio_installed s1") (simp_all add: acreate_instance_def run_async_def)
      have "enter_context (f args kwargs (length (calls s1)))
              (s1\<lparr>calls := calls s1 @ [interface provider]\<rparr>) = (Inr v, s')"
        using assms g Generator Inr ak a
        by (simp add: acreate_instance_def invoke_def run_async_def)
      from enter_context_Inr[OF this]
      show ?thesis using g Generator Inr ak by (simp add: produced_def)
    next
      case (Coroutine f)
      show ?thesis
      proof (cases "f args kwargs (length (calls s1))")
        case (Inl e)
        with assms g Coroutine Inr ak show ?thesis by (simp add: acreate_instance_def invoke_def)
      next
        case fr: (Inr inst)
        have "(case AbstractAsyncContextManager inst of
                 None \<Rightarrow> (Inr inst, s1\<lparr>calls := calls s1 @ [interface provider]\<rparr>)
               | Some cm \<Rightarrow>
                   (case enter_async_context cm (s1\<lparr>calls := calls s1 @ [interface provider]\<rparr>) of
                      (Inl e, s3) \<Rightarrow> (Inl e, s3) | (Inr u, s3) \<Rightarrow> (Inr inst, s3))) = (Inr v, s')"
          using assms g Coroutine Inr ak fr by (simp add: acreate_instance_def invoke_def)
        from areturned_instance_calls[OF this]
        show ?thesis using g Coroutine Inr ak fr by (simp add: produced_def)
      qed
    next
      case (Plain f)
      have a: "anyio_installed s1"
        using assms g Plain Inr ak
        by (cases "anyio_installed s1") (simp_all add: acreate_instance_def run_async_def)
      show ?thesis
      proof (cases "f args kwargs (length (calls s1))")
        case (Inl e)
        with assms g Plain Inr ak a show ?thesis
          by (simp add: acreate_instance_def invoke_def run_async_def)
      next
        case fr: (Inr inst)
        have "(case AbstractAsyncContextManager inst of
                 None \<Rightarrow> (Inr inst, s1\<lparr>calls := calls s1 @ [interface provider]\<rparr>)
               | Some cm \<Rightarrow>
                   (case enter_async_context cm (s1\<lparr>calls := calls s1 @ [interface provider]\<rparr>) of
                      (Inl e, s3) \<Rightarrow> (Inl e, s3) | (Inr u, s3) \<Rightarrow> (Inr inst, s3))) = (Inr v, s')"
          using assms g Plain Inr ak fr a
          by (simp add: acreate_instance_def invoke_def run_async_def)
        from areturned_instance_calls[OF this]
        show ?thesis using g Plain Inr ak fr by (simp add: produced_def)
      qed
    qed
  qed
qed

lemma create_instance_produced:
  assumes "keeps_call_log (resolve_parameter C)"
    and "create_instance C provider s = (Inr v, s')"
  shows "\<exists>args kwargs n. length (calls s) \<le> n \<and> n < length (calls s')
           \<and> produced (call provider) args kwargs n = Some v"
proof -
  from create_instance_Inr[OF assms(2)] obtain args kwargs s1 where
    g: "get_provided_args C provider s = (Inr (args, kwargs), s1)"
    and p: "produced (call provider) args kwargs (length (calls s1)) = Some v"
    and c: "calls s' = calls s1 @ [interface provider]" by blast
  have "length (calls s) \<le> length (calls s1)"
    using provided_args_calls[OF assms(1), of s C provider "parameters provider" "[]" Map.empty] g
    by (simp add: get_provided_args_def)
  with p c show ?thesis
    by (intro exI[of _ args] exI[of _ kwargs] exI[of _ "length (calls s1)"]) simp
qed

lemma acreate_instance_produced:
  assumes "keeps_call_log (aresolve_parameter C)"
    and "acreate_instance C provider s = (Inr v, s')"
  shows "\<exists>args kwargs n. length (calls s) \<le> n \<and> n < length (calls s')
           \<and> produced (call provider) args kwargs n = Some v"
proof -
  from acreate_instance_Inr[OF assms(2)] obtain args kwargs s1 where
    g: "aget_provided_args C provider s = (Inr (args, kwargs), s1)"
    and p: "produced (call provider) args kwargs (length (calls s1)) = Some v"
    and c: "calls s' = calls s1 @ [interface provider]" by blast
  have "length (calls s) \<le> length (calls s1)"
    using provided_args_calls[OF assms(1), of s C provider "parameters provider" "[]" Map.empty] g
    by (simp add: aget_provided_args_def)
  with p c show ?thesis
    by (intro exI[of _ args] exI[of _ kwargs] exI[of _ "length (calls s1)"]) simp
qed

lemma two_creations_distinct:
  assumes "returns_new_objects c"
    and "produced c a1 k1 n1 = Some v1" and "produced c a2 k2 n2 = Some v2" and "n1 < n2"
  shows "v1 \<noteq> v2"
proof
  assume "v1 = v2"
  with assms(3) have "produced c a2 k2 n2 = Some v1" by simp
  moreover have "n1 \<noteq> n2" using assms(4) by simp
  ultimately show False
    using assms(1,2) unfolding returns_new_objects_def by blast
qed

lemma TransientContext_get_or_create_Inr:
  assumes "TransientContext_get_or_create C provider s = (Inr (v, created), s')"
  shows "created \<and> create_instance C provider s = (Inr v, s')"
proof -
  obtain r t where c: "create_instance C provider s = (r, t)"
    by (cases "create_instance C provider s") auto
  show ?thesis
    using assms c by (cases r) (auto simp: TransientContext_get_or_create_def)
qed

lemma TransientContext_aget_or_create_Inr:
  assumes "TransientContext_aget_or_create C provider s = (Inr (v, created), s')"
  shows "created \<and> acreate_instance C provider s = (Inr v, s')"
proof -
  obtain r t where c: "acreate_instance C provider s = (r, t)"
    by (cases "acreate_instance C provider s") auto
  show ?thesis
    using assms c by (cases r) (auto simp: TransientContext_aget_or_create_def)
qed

text \<open>
  C7, as amended. The container's parameter resolution only adds to the record of
  factory invocations. Then every successful \<^verbatim>\<open>get_or_create\<close> of the transient
  context returns \<^verbatim>\<open>created = True\<close> with an instance that the factory handed over
  at an invocation made during this call, whatever the instance map holds; the call
  itself stores nothing (the instance map is unchanged when parameter resolution
  leaves it alone); and two resolutions return different instances when the factory
  never hands over the same object at two invocations. The same holds for
  \<^verbatim>\<open>aget_or_create\<close>.
\<close>

theorem transient_get_or_create_invokes_factory_each_time:
  assumes "keeps_call_log (resolve_parameter C)" and "keeps_call_log (aresolve_parameter C)"
  shows
   "(TransientContext_get_or_create C provider s = (Inr (v, created), s') \<longrightarrow>
       created
       \<and> (\<exists>args kwargs n. length (calls s) \<le> n \<and> n < length (calls s')
             \<and> produced (call provider) args kwargs n = Some v)
       \<and> (keeps_instances (resolve_parameter C) \<longrightarrow> instances s' = instances s)
       \<and> (returns_new_objects (call provider) \<and> length (calls s') \<le> length (calls t)
            \<and> TransientContext_get_or_create C provider t = (Inr (v2, created2), t')
          \<longrightarrow> v \<noteq> v2))
  \<and> (TransientContext_aget_or_create C provider s = (Inr (v, created), s') \<longrightarrow>
       created
       \<and> (\<exists>args kwargs n. length (calls s) \<le> n \<and> n < length (calls s')
             \<and> produced (call provider) args kwargs n = Some v)
       \<and> (keeps_instances (aresolve_parameter C) \<longrightarrow> instances s' = instances s)
       \<and> (returns_new_objects (call provider) \<and> length (calls s') \<le> length (calls t)
            \<and> TransientContext_aget_or_create C provider t = (Inr (v2, created2), t')
          \<longrightarrow> v \<noteq> v2))"
proof (intro conjI impI)
  assume a: "TransientContext_get_or_create C provider s = (Inr (v, created), s')"
  from TransientContext_get_or_create_Inr[OF a]
  have cr: created and ci: "create_instance C provider s = (Inr v, s')" by simp_all
  show created by (rule cr)
  from create_instance_produced[OF assms(1) ci]
  show p: "\<exists>args kwargs n. length (calls s) \<le> n \<and> n < length (calls s')
             \<and> produced (call provider) args kwargs n = Some v" .
  {
    assume "keeps_instances (resolve_parameter C)"
    from create_instance_instances[OF this, of provider s] ci
    show "instances s' = instances s" by simp
  }
  {
    assume b: "returns_new_objects (call provider) \<and> length (calls s') \<le> length (calls t)
            \<and> TransientContext_get_or_create C provider t = (Inr (v2, created2), t')"
    then have ci2: "create_instance C provider t = (Inr v2, t')"
      using TransientContext_get_or_create_Inr by blast
    from p obtain a1 k1 n1 where n1: "n1 < length (calls s')"
      and p1: "produced (call provider) a1 k1 n1 = Some v" by blast
    from create_instance_produced[OF assms(1) ci2] obtain a2 k2 n2
      where n2: "length (calls t) \<le> n2"
      and p2: "produced (call provider) a2 k2 n2 = Some v2" by blast
    have "n1 < n2" using n1 n2 b by simp
    with b p1 p2 show "v \<noteq> v2" using two_creations_distinct by blast
  }
next
  assume a: "TransientContext_aget_or_create C provider s = (Inr (v, created), s')"
  from TransientContext_aget_or_create_Inr[OF a]
  have cr: created and ci: "acreate_instance C provider s = (Inr v, s')" by simp_all
  show created by (rule cr)
  from acreate_instance_produced[OF assms(2) ci]
  show p: "\<exists>args kwargs n. length (calls s) \<le> n \<and> n < length (calls s')
             \<and> produced (call provider) args kwargs n = Some v" .
  {
    assume "keeps_instances (aresolve_parameter C)"
    from acreate_instance_instances[OF this, of provider s] ci
    show "instances s' = instances s" by simp
  }
  {
    assume b: "returns_new_objects (call provider) \<and> length (calls s') \<le> length (calls t)
            \<and> TransientContext_aget_or_create C provider t = (Inr (v2, created2), t')"
    then have ci2: "acreate_instance C provider t = (Inr v2, t')"
      using TransientContext_aget_or_create_Inr by blast
    from p obtain a1 k1 n1 where n1: "n1 < length (calls s')"
      and p1: "produced (call provider) a1 k1 n1 = Some v" by blast
    from acreate_instance_produced[OF assms(2) ci2] obtain a2 k2 n2
      where n2: "length (calls t) \<le> n2"
      and p2: "produced (call provider) a2 k2 n2 = Some v2" by blast
    have "n1 < n2" using n1 n2 b by simp
    with b p1 p2 show "v \<noteq> v2" using two_creations_distinct by blast
  }
qed

lemma unregistered_keeps:
  "keeps_call_log unregistered" "keeps_instances unregistered"
  by (simp_all add: keeps_call_log_def keeps_instances_def unregistered_def)

lemma fresh_provider_returns_new_objects:
  "returns_new_objects (call fresh_provider)"
  by (auto simp: returns_new_objects_def produced_def fresh_provider_def)

theorem transient_get_or_create_invokes_factory_each_time_witness:
  "keeps_call_log (resolve_parameter empty_container)
   \<and> keeps_call_log (aresolve_parameter empty_container)
   \<and> keeps_instances (resolve_parameter empty_container)
   \<and> returns_new_objects (call fresh_provider)
   \<and> TransientContext_get_or_create empty_container fresh_provider empty_context
       = (Inr (Obj 0 None None, True), empty_context\<lparr>calls := [''Service'']\<rparr>)
   \<and> TransientContext_get_or_create empty_container fresh_provider
         (empty_context\<lparr>calls := [''Service'']\<rparr>)
       = (Inr (Obj 1 None None, True), empty_context\<lparr>calls := [''Service'', ''Service'']\<rparr>)
   \<and> instances (empty_context\<lparr>calls := [''Service'']\<rparr>) = instances empty_context
   \<and> Obj 0 None None \<noteq> Obj 1 None None
   \<and> TransientContext_aget_or_create empty_container fresh_provider empty_context
       = (Inr (Obj 0 None None, True), empty_context\<lparr>calls := [''Service'']\<rparr>)"
proof -
  have k: "keeps_call_log (resolve_parameter empty_container)"
    "keeps_call_log (aresolve_parameter empty_container)"
    "keeps_instances (resolve_parameter empty_container)"
    using unregistered_keeps by (simp_all add: empty_container_def)
  have r1: "TransientContext_get_or_create empty_container fresh_provider empty_context
       = (Inr (Obj 0 None None, True), empty_context\<lparr>calls := [''Service'']\<rparr>)"
    by (simp add: TransientContext_get_or_create_def create_instance_def get_provided_args_def
        invoke_def fresh_provider_def empty_context_def)
  have r2: "TransientContext_get_or_create empty_container fresh_provider
         (empty_context\<lparr>calls := [''Service'']\<rparr>)
       = (Inr (Obj 1 None None, True), empty_context\<lparr>calls := [''Service'', ''Service'']\<rparr>)"
    by (simp add: TransientContext_get_or_create_def create_instance_def get_provided_args_def
        invoke_def fresh_provider_def empty_context_def)
  have r3: "TransientContext_aget_or_create empty_container fresh_provider empty_context
       = (Inr (Obj 0 None None, True), empty_context\<lparr>calls := [''Service'']\<rparr>)"
    by (simp add: TransientContext_aget_or_create_def acreate_instance_def aget_provided_args_def
        invoke_def run_async_def fresh_provider_def empty_context_def)
  note w = transient_get_or_create_invokes_factory_each_time
             [OF k(1) k(2), of fresh_provider empty_context "Obj 0 None None" True
                "empty_context\<lparr>calls := [''Service'']\<rparr>"
                "empty_context\<lparr>calls := [''Service'']\<rparr>" "Obj 1 None None" True
                "empty_context\<lparr>calls := [''Service'', ''Service'']\<rparr>"]
  have "instances (empty_context\<lparr>calls := [''Service'']\<rparr>) = instances empty_context
        \<and> Obj 0 None None \<noteq> Obj 1 None None"
    using w r1 r2 k(3) fresh_provider_returns_new_objects by simp
  with k r1 r2 r3 fresh_provider_returns_new_objects show ?thesis by simp
qed

text \<open>
  C7 as stated fails: a transient provider whose factory returns a shared object gives
  the same instance at both resolutions.
\<close>

theorem transient_resolutions_of_shared_object_are_identical:
  "fst (TransientContext_get_or_create empty_container shared_provider empty_context)
     = Inr (Obj 7 None None, True)
   \<and> fst (TransientContext_get_or_create empty_container shared_provider
            (snd (TransientContext_get_or_create empty_container shared_provider empty_context)))
     = Inr (Obj 7 None None, True)"
  by (simp add: TransientContext_get_or_create_def create_instance_def get_provided_args_def
      invoke_def shared_provider_def empty_context_def)


end
